theory Spec2Isabelle
  imports Complex_Main "HOL-Library.Word" "HOL-Library.Sublist"
begin

section \<open>Values of the JavaScript program\<close>

text \<open>
  A JavaScript string is a sequence of UTF-16 code units. \<open>js_of\<close> writes an ASCII
  literal of the source as such a sequence.
\<close>

type_synonym jsstring = "16 word list"

definition js_of :: "string \<Rightarrow> jsstring" where
  "js_of s = map (\<lambda>c. of_char c) s"

text \<open>
  The values \<open>JSON.parse\<close> can return. A property list stands for an object; looking a
  property up takes the first entry with that key. \<open>None\<close> at type \<open>jsval\<close> is
  JavaScript's \<open>undefined\<close>, the value of a property that is absent.
\<close>

datatype json =
    JNull
  | JBool bool
  | JNum rat
  | JStr jsstring
  | JArr "json list"
  | JObj "(jsstring \<times> json) list"

type_synonym jsval = "json option"

datatype js_error = SyntaxError | TypeError

text \<open>Truthiness, as \<open>&&\<close> and \<open>||\<close> test it.\<close>

fun truthy :: "jsval \<Rightarrow> bool" where
  "truthy None = False"
| "truthy (Some JNull) = False"
| "truthy (Some (JBool b)) = b"
| "truthy (Some (JNum q)) = (q \<noteq> 0)"
| "truthy (Some (JStr s)) = (s \<noteq> [])"
| "truthy (Some (JArr xs)) = True"
| "truthy (Some (JObj kvs)) = True"

text \<open>
  \<open>data.k\<close> for a decoded message \<open>data\<close> that is not \<open>null\<close>, for the property names the
  handler reads (type, count, language, word, card_ids, winners): an object answers
  with its property, every other value with \<open>undefined\<close>.
\<close>

fun js_prop :: "json \<Rightarrow> jsstring \<Rightarrow> jsval" where
  "js_prop (JObj kvs) k = map_of kvs k"
| "js_prop v k = None"

section \<open>Language Classifier\<close>

record lang_config =
  rows :: nat
  cols :: nat
  total_cfg :: nat

text \<open>The table \<open>LANGUAGE_CONFIGS\<close>, in the order \<open>Object.entries\<close> lists it.\<close>

definition LANGUAGE_CONFIGS :: "(jsstring \<times> lang_config) list" where
  "LANGUAGE_CONFIGS =
    [(js_of ''spanish'', \<lparr>rows = 4, cols = 6, total_cfg = 24\<rparr>),
     (js_of ''english'', \<lparr>rows = 2, cols = 7, total_cfg = 14\<rparr>),
     (js_of ''portuguese'', \<lparr>rows = 5, cols = 4, total_cfg = 20\<rparr>),
     (js_of ''dutch'', \<lparr>rows = 2, cols = 5, total_cfg = 10\<rparr>)]"

text \<open>The \<open>for\<close> loop of \<open>detectLanguage\<close> over a table of entries.\<close>

fun detectLanguage_loop :: "(jsstring \<times> lang_config) list \<Rightarrow> nat \<Rightarrow> jsstring" where
  "detectLanguage_loop [] wordCount = js_of ''spanish''"
| "detectLanguage_loop ((lang, config) # rest) wordCount =
     (if total_cfg config = wordCount then lang else detectLanguage_loop rest wordCount)"

definition detectLanguage :: "nat \<Rightarrow> jsstring" where
  "detectLanguage wordCount = detectLanguage_loop LANGUAGE_CONFIGS wordCount"

section \<open>Card Store and Card Parser\<close>

text \<open>
  A card object. \<open>markedWords\<close> is optional because the handlers guard against its
  absence (\<open>card.markedWords || []\<close>); the parser always sets it.
\<close>

record bingo_card =
  card_id :: jsstring
  words :: "jsstring list"
  language :: jsstring
  transmitted :: bool
  markedWords :: "jsstring list option"

text \<open>
  White space as \<open>String.prototype.trim\<close> and the regular expression class \<open>\s\<close>
  define it: the WhiteSpace and LineTerminator code points.
\<close>

definition is_ws :: "16 word \<Rightarrow> bool" where
  "is_ws c \<longleftrightarrow>
     c \<in> {0x09, 0x0A, 0x0B, 0x0C, 0x0D, 0x20, 0xA0, 0x1680, 0x2028, 0x2029,
          0x202F, 0x205F, 0x3000, 0xFEFF}
     \<or> (0x2000 \<le> c \<and> c \<le> 0x200A)"

definition trim :: "jsstring \<Rightarrow> jsstring" where
  "trim s = rev (dropWhile is_ws (rev (dropWhile is_ws s)))"

text \<open>\<open>s.split('\n')\<close>: \<open>cur\<close> holds the current piece, reversed.\<close>

fun split_nl_aux :: "jsstring \<Rightarrow> jsstring \<Rightarrow> jsstring list" where
  "split_nl_aux cur [] = [rev cur]"
| "split_nl_aux cur (c # cs) =
     (if c = 0x0A then rev cur # split_nl_aux [] cs else split_nl_aux (c # cur) cs)"

definition split_nl :: "jsstring \<Rightarrow> jsstring list" where
  "split_nl s = split_nl_aux [] s"

text \<open>
  \<open>s.split(/\s+/)\<close>: at a white-space character the current piece ends and the whole
  run of white space is skipped; the piece after the last separator is always emitted,
  also when it is empty.
\<close>

function split_ws_aux :: "jsstring \<Rightarrow> jsstring \<Rightarrow> jsstring list" where
  "split_ws_aux cur [] = [rev cur]"
| "split_ws_aux cur (c # cs) =
     (if is_ws c then rev cur # split_ws_aux [] (dropWhile is_ws cs)
      else split_ws_aux (c # cur) cs)"
  by pat_completeness auto
termination
  by (relation "measure (\<lambda>(cur, s). length s)")
     (auto simp: length_dropWhile_le less_Suc_eq_le)

definition split_ws :: "jsstring \<Rightarrow> jsstring list" where
  "split_ws s = split_ws_aux [] s"

text \<open>The body of the \<open>for\<close> loop of \<open>parseTxtFile\<close>; \<open>cards\<close> is the array being filled.\<close>

fun parse_loop :: "jsstring list \<Rightarrow> bingo_card list \<Rightarrow> bingo_card list" where
  "parse_loop [] cards = cards"
| "parse_loop (line # rest) cards =
     (let parts = split_ws (trim line) in
      if length parts < 2 then parse_loop rest cards
      else
        let ident = hd parts; ws = drop 1 parts in
        if length ws = 0 then parse_loop rest cards
        else parse_loop rest
          (cards @ [\<lparr>card_id = ident, words = ws, language = detectLanguage (length ws),
                      transmitted = False, markedWords = Some []\<rparr>]))"

definition parseTxtFile :: "jsstring \<Rightarrow> bingo_card list" where
  "parseTxtFile content =
     (let lines = filter (\<lambda>line. trim line \<noteq> []) (split_nl content) in
      if length lines = 0 then [] else parse_loop lines [])"

section \<open>Application state\<close>

text \<open>
  The state of the component \<open>App\<close>: the values held by \<open>useState\<close> that the core
  reads or writes, the socket of \<open>socketRef\<close>, and the effects the code has on the
  outside, kept as logs: \<open>outbox\<close> lists the card messages \<open>sendBingoCard\<close> gives to
  \<open>socket.send\<close> (the register and play messages are not recorded), \<open>sendCalls\<close> the
  store index of every card handed to \<open>sendBingoCard\<close>, and \<open>console\<close> the errors given
  to \<open>console.error\<close>. Two fields hold what is pending: \<open>timers\<close> the 100 ms timeouts
  of the transmission queue, oldest first, each with the array \<open>updatedCards\<close> its
  callback closes over, and \<open>readers\<close> the file readers that have not finished, each
  with the array \<open>bingoCards\<close> its \<open>onload\<close> callback closes over and the text of its
  file. Fields that only steer the presentation (modals of the load dialog, the form
  inputs) are left out.
\<close>

datatype ready_state = CONNECTING | OPEN | CLOSING | CLOSED

datatype outbound = BingoCardMsg jsstring "jsstring list" jsstring

record round_results =
  rr_winners :: jsval
  rr_language :: jsval

record app_state =
  bingoCards :: "bingo_card list"
  selectedCardIndex :: nat
  currentWord :: jsval
  isTransmitting :: bool
  currentLanguage :: jsval
  playerCount :: jsval
  gameStarted :: bool
  showWinnersModal :: bool
  winners :: jsval
  showRoundModal :: bool
  roundResults :: round_results
  socketRef :: "ready_state option"
  outbox :: "outbound list"
  sendCalls :: "nat list"
  timers :: "bingo_card list list"
  readers :: "(bingo_card list \<times> jsstring) list"
  console :: "js_error list"

definition init_state :: app_state where
  "init_state =
    \<lparr>bingoCards = [], selectedCardIndex = 0, currentWord = Some (JStr []),
     isTransmitting = False, currentLanguage = Some (JStr []),
     playerCount = Some (JNum 0), gameStarted = False, showWinnersModal = False,
     winners = Some JNull, showRoundModal = False,
     roundResults = \<lparr>rr_winners = Some (JArr []), rr_language = Some (JStr [])\<rparr>,
     socketRef = None, outbox = [], sendCalls = [], timers = [], readers = [],
     console = []\<rparr>"

section \<open>Protocol Dispatcher\<close>

subsection \<open>Word marking\<close>

text \<open>
  \<open>data.card_ids.includes(card.id)\<close> for a truthy \<open>data.card_ids\<close>: membership for an
  array, containment for a string, and a TypeError for every other value, which has no
  method \<open>includes\<close>.
\<close>

fun includes_id :: "json \<Rightarrow> jsstring \<Rightarrow> js_error + bool" where
  "includes_id (JArr xs) i = Inr (JStr i \<in> set xs)"
| "includes_id (JStr s) i = Inr (sublist i s)"
| "includes_id v i = Inl TypeError"

text \<open>\<open>card.markedWords || []\<close>; an array, also an empty one, is truthy.\<close>

definition marked_of :: "bingo_card \<Rightarrow> jsstring list" where
  "marked_of crd = (case markedWords crd of None \<Rightarrow> [] | Some m \<Rightarrow> m)"

text \<open>
  The function mapped over the cards by the \<open>word_selected\<close> case. The words of a card
  are strings, so \<open>card.words.includes(data.word)\<close> holds only for a string
  \<open>data.word\<close>.
\<close>

definition mark_card :: "jsval \<Rightarrow> jsval \<Rightarrow> bingo_card \<Rightarrow> js_error + bingo_card" where
  "mark_card card_ids word crd =
     (if truthy card_ids then
        (case includes_id (the card_ids) (card_id crd) of
           Inl e \<Rightarrow> Inl e
         | Inr b \<Rightarrow>
            (case word of
               Some (JStr w) \<Rightarrow>
                 if b \<and> w \<in> set (words crd) then
                   (let marked = marked_of crd in
                    if w \<notin> set marked then Inr (crd\<lparr>markedWords := Some (marked @ [w])\<rparr>)
                    else Inr crd)
                 else Inr crd
             | _ \<Rightarrow> Inr crd))
      else Inr crd)"

text \<open>\<open>prevCards.map(f)\<close> for an \<open>f\<close> that may throw: the first exception ends the map.\<close>

fun map_cards :: "(bingo_card \<Rightarrow> js_error + bingo_card) \<Rightarrow> bingo_card list \<Rightarrow> js_error + bingo_card list" where
  "map_cards f [] = Inr []"
| "map_cards f (c # cs) =
     (case f c of
        Inl e \<Rightarrow> Inl e
      | Inr c' \<Rightarrow> (case map_cards f cs of Inl e \<Rightarrow> Inl e | Inr cs' \<Rightarrow> Inr (c' # cs')))"

subsection \<open>Best-Card Selector\<close>

definition markedCount :: "bingo_card \<Rightarrow> nat" where
  "markedCount crd = (case markedWords crd of None \<Rightarrow> 0 | Some m \<Rightarrow> length m)"

text \<open>
  One round of \<open>updated.forEach\<close>; the state is
  \<open>(maxMarked, bestIndex, maxMarkedForLanguage, bestIndexForLanguage)\<close>, and \<open>lang\<close> is
  \<open>data.language\<close> of the \<open>word_selected\<close> message.
\<close>

definition select_step ::
  "jsval \<Rightarrow> nat \<times> nat \<times> nat \<times> nat \<Rightarrow> bingo_card \<times> nat \<Rightarrow> nat \<times> nat \<times> nat \<times> nat" where
  "select_step lang acc ci =
     (case acc of (maxMarked, bestIndex, maxMarkedForLanguage, bestIndexForLanguage) \<Rightarrow>
      case ci of (crd, index) \<Rightarrow>
        let cnt = markedCount crd;
            (maxMarked', bestIndex') =
              (if cnt > maxMarked then (cnt, index) else (maxMarked, bestIndex));
            (maxL', bestL') =
              (if Some (JStr (language crd)) = lang \<and> cnt > maxMarkedForLanguage
               then (cnt, index) else (maxMarkedForLanguage, bestIndexForLanguage))
        in (maxMarked', bestIndex', maxL', bestL'))"

definition select_best :: "jsval \<Rightarrow> bingo_card list \<Rightarrow> nat" where
  "select_best lang updated =
     (case foldl (select_step lang) (0, 0, 0, 0) (zip updated [0..<length updated]) of
        (maxMarked, bestIndex, maxMarkedForLanguage, bestIndexForLanguage) \<Rightarrow>
          if maxMarkedForLanguage > 0 then bestIndexForLanguage else bestIndex)"

subsection \<open>The handler\<close>

text \<open>
  What a call of \<open>handleWebSocketMessage\<close> comes to: it throws to its caller (\<open>Threw\<close>),
  or it returns and the state updates it queued are applied (\<open>Returned\<close>), or it
  returns and the function it gave to \<open>setBingoCards\<close> throws when React runs it,
  outside any \<open>try\<close> of the program (\<open>Crashed\<close>). The selector of the \<open>word_selected\<close>
  case runs in a zero-delay timeout on the array \<open>updated\<close>; the model applies its
  result in the same step.
\<close>

datatype handler_outcome = Threw js_error | Crashed js_error | Returned app_state

definition handleWebSocketMessage :: "json \<Rightarrow> app_state \<Rightarrow> handler_outcome" where
  "handleWebSocketMessage data st =
     (if data = JNull then Threw TypeError
      else
        let ty = js_prop data (js_of ''type'') in
        if ty = Some (JStr (js_of ''player_count'')) then
          Returned (st\<lparr>playerCount := js_prop data (js_of ''count'')\<rparr>)
        else if ty = Some (JStr (js_of ''game_started'')) then
          Returned (st\<lparr>gameStarted := True\<rparr>)
        else if ty = Some (JStr (js_of ''round_start'')) then
          Returned (st\<lparr>currentLanguage := js_prop data (js_of ''language'')\<rparr>)
        else if ty = Some (JStr (js_of ''word_selected'')) then
          (case map_cards (mark_card (js_prop data (js_of ''card_ids''))
                                     (js_prop data (js_of ''word''))) (bingoCards st) of
             Inl e \<Rightarrow> Crashed e
           | Inr updated \<Rightarrow>
               Returned (st\<lparr>currentWord := js_prop data (js_of ''word''),
                            bingoCards := updated,
                            selectedCardIndex :=
                              select_best (js_prop data (js_of ''language'')) updated\<rparr>))
        else if ty = Some (JStr (js_of ''round_end'')) then
          Returned (st\<lparr>currentWord := Some (JStr []),
                       roundResults :=
                         \<lparr>rr_winners =
                            (if truthy (js_prop data (js_of ''winners''))
                             then js_prop data (js_of ''winners'') else Some (JArr [])),
                          rr_language = js_prop data (js_of ''language'')\<rparr>,
                       showRoundModal := True\<rparr>)
        else if ty = Some (JStr (js_of ''game_end'')) then
          Returned (st\<lparr>winners := js_prop data (js_of ''winners''),
                       showWinnersModal := True,
                       showRoundModal := False\<rparr>)
        else Returned st)"

text \<open>
  \<open>socket.onmessage\<close>. \<open>decoded\<close> is what \<open>JSON.parse(event.data)\<close> comes to: \<open>None\<close>
  when it throws a SyntaxError. The \<open>catch\<close> logs whatever was thrown inside the \<open>try\<close>.
\<close>

definition onmessage :: "json option \<Rightarrow> app_state \<Rightarrow> js_error + app_state" where
  "onmessage decoded st =
     (case decoded of
        None \<Rightarrow> Inr (st\<lparr>console := console st @ [SyntaxError]\<rparr>)
      | Some data \<Rightarrow>
          (case handleWebSocketMessage data st of
             Threw e \<Rightarrow> Inr (st\<lparr>console := console st @ [e]\<rparr>)
           | Crashed e \<Rightarrow> Inl e
           | Returned st' \<Rightarrow> Inr st'))"

section \<open>Transmission Queue\<close>

definition sendBingoCard :: "bingo_card \<Rightarrow> app_state \<Rightarrow> app_state" where
  "sendBingoCard crd st =
     (if socketRef st = Some OPEN
      then st\<lparr>outbox := outbox st @ [BingoCardMsg (card_id crd) (words crd) (language crd)]\<rparr>
      else st)"

text \<open>\<open>xs.findIndex(p)\<close>, with \<open>None\<close> for \<open>-1\<close>.\<close>

fun findIndex :: "('a \<Rightarrow> bool) \<Rightarrow> 'a list \<Rightarrow> nat option" where
  "findIndex p [] = None"
| "findIndex p (x # xs) = (if p x then Some 0 else map_option Suc (findIndex p xs))"

definition transmitNextCard :: "app_state \<Rightarrow> app_state" where
  "transmitNextCard st =
     (let prevCards = bingoCards st in
      case findIndex (\<lambda>crd. \<not> transmitted crd) prevCards of
        None \<Rightarrow> st\<lparr>isTransmitting := False\<rparr>
      | Some untransmittedIndex \<Rightarrow>
          let crd = prevCards ! untransmittedIndex;
              st1 = sendBingoCard crd (st\<lparr>sendCalls := sendCalls st @ [untransmittedIndex]\<rparr>);
              updatedCards =
                map (\<lambda>(c, idx). if idx = untransmittedIndex then c\<lparr>transmitted := True\<rparr> else c)
                    (zip prevCards [0..<length prevCards])
          in st1\<lparr>bingoCards := updatedCards, timers := timers st1 @ [updatedCards]\<rparr>)"

text \<open>The callback of the 100 ms timeout that is due first.\<close>

definition drainTimeout :: "app_state \<Rightarrow> app_state" where
  "drainTimeout st =
     (case timers st of
        [] \<Rightarrow> st
      | updatedCards # rest \<Rightarrow>
          let st1 = st\<lparr>timers := rest\<rparr> in
          if \<exists>crd \<in> set updatedCards. \<not> transmitted crd then transmitNextCard st1
          else st1\<lparr>isTransmitting := False\<rparr>)"

text \<open>The effect that depends on \<open>bingoCards.length\<close>.\<close>

definition cardsEffect :: "app_state \<Rightarrow> app_state" where
  "cardsEffect st =
     (if length (bingoCards st) = 0 then st
      else if (\<exists>crd \<in> set (bingoCards st). \<not> transmitted crd) \<and> \<not> isTransmitting st
      then transmitNextCard (st\<lparr>isTransmitting := True\<rparr>)
      else st)"

text \<open>
  \<open>setBingoCards(cards)\<close> with an array, followed by the render it causes, in which the
  effect runs when the length of the store has changed.
\<close>

definition setBingoCards :: "bingo_card list \<Rightarrow> app_state \<Rightarrow> app_state" where
  "setBingoCards cards st =
     (let st1 = st\<lparr>bingoCards := cards\<rparr> in
      if length cards \<noteq> length (bingoCards st) then cardsEffect st1 else st1)"

text \<open>
  \<open>handleFileUpload\<close>, when a file has been chosen (\<open>None\<close>: no file). It starts a
  reader whose \<open>onload\<close> callback closes over the \<open>bingoCards\<close> of this render; the
  reader is pending until it has read the file.
\<close>

definition handleFileUpload :: "jsstring option \<Rightarrow> app_state \<Rightarrow> app_state" where
  "handleFileUpload file st =
     (case file of
        None \<Rightarrow> st
      | Some content \<Rightarrow> st\<lparr>readers := readers st @ [(bingoCards st, content)]\<rparr>)"

text \<open>
  The \<open>onload\<close> callback of a reader, on the text of its file: \<open>captured\<close> is the
  \<open>bingoCards\<close> it closed over, which
  \<open>setBingoCards([...bingoCards, ...newCards])\<close> puts back in the store.
\<close>

definition reader_onload :: "bingo_card list \<Rightarrow> jsstring \<Rightarrow> app_state \<Rightarrow> app_state" where
  "reader_onload captured content st =
     (let newCards = parseTxtFile content in
      if length newCards > 0 then setBingoCards (captured @ newCards) st else st)"

text \<open>The pending reader at position \<open>n\<close> finishes and its \<open>onload\<close> runs.\<close>

definition readerLoaded :: "nat \<Rightarrow> app_state \<Rightarrow> app_state" where
  "readerLoaded n st =
     (if n < length (readers st) then
        (case readers st ! n of
           (captured, content) \<Rightarrow>
             reader_onload captured content
               (st\<lparr>readers := take n (readers st) @ drop (Suc n) (readers st)\<rparr>))
      else st)"

text \<open>
  \<open>handleManualSubmit\<close> runs in the click that submits the form; the \<open>bingoCards\<close> it
  reads is the store as last rendered, and every event here is followed by its render.
\<close>

definition handleManualSubmit :: "jsstring \<Rightarrow> jsstring \<Rightarrow> app_state \<Rightarrow> app_state" where
  "handleManualSubmit manualCardId manualInput st =
     (if trim manualCardId = [] \<or> trim manualInput = [] then st
      else
        let ws = filter (\<lambda>word. word \<noteq> []) (map trim (split_nl manualInput)) in
        if length ws = 0 then st
        else setBingoCards
               (bingoCards st @
                [\<lparr>card_id = trim manualCardId, words = ws,
                  language = detectLanguage (length ws),
                  transmitted = False, markedWords = Some []\<rparr>]) st)"

subsection \<open>Events\<close>

text \<open>
  The events the core reacts to, each handled to completion before the next: an inbound
  message (with the outcome of decoding it), the choice of a card file, the end of a
  pending read, a manual entry, the expiry of the oldest pacing timeout, and a change of
  the ready state of the socket.
\<close>

datatype event =
    Message "json option"
  | FileChosen "jsstring option"
  | ReaderLoaded nat
  | ManualSubmit jsstring jsstring
  | DrainTimer
  | SocketChange "ready_state option"

fun step :: "event \<Rightarrow> app_state \<Rightarrow> js_error + app_state" where
  "step (Message decoded) st = onmessage decoded st"
| "step (FileChosen file) st = Inr (handleFileUpload file st)"
| "step (ReaderLoaded n) st = Inr (readerLoaded n st)"
| "step (ManualSubmit manualCardId manualInput) st =
     Inr (handleManualSubmit manualCardId manualInput st)"
| "step DrainTimer st = Inr (drainTimeout st)"
| "step (SocketChange s) st = Inr (st\<lparr>socketRef := s\<rparr>)"

fun run :: "event list \<Rightarrow> app_state \<Rightarrow> js_error + app_state" where
  "run [] st = Inr st"
| "run (e # es) st = (case step e st of Inl err \<Rightarrow> Inl err | Inr st' \<Rightarrow> run es st')"

section \<open>The parser's contract\<close>

text \<open>
  The white-space delimited tokens of a line, defined without reference to the code: the
  maximal runs of characters that are not white space, in order. \<open>cur\<close> is the run
  being read, reversed.
\<close>

fun tokens_aux :: "jsstring \<Rightarrow> jsstring \<Rightarrow> jsstring list" where
  "tokens_aux cur [] = (if cur = [] then [] else [rev cur])"
| "tokens_aux cur (c # cs) =
     (if is_ws c then (if cur = [] then tokens_aux [] cs else rev cur # tokens_aux [] cs)
      else tokens_aux (c # cur) cs)"

definition tokens :: "jsstring \<Rightarrow> jsstring list" where
  "tokens s = tokens_aux [] s"

text \<open>The card the contract asks for from the tokens of a line.\<close>

definition card_of_tokens :: "jsstring list \<Rightarrow> bingo_card" where
  "card_of_tokens ts =
     \<lparr>card_id = hd ts, words = tl ts, language = detectLanguage (length (tl ts)),
      transmitted = False, markedWords = Some []\<rparr>"

section \<open>Messages of the protocol\<close>

text \<open>
  The inbound messages as the interface lists them, as decoded values, for stating
  properties at concrete inputs. \<open>word_selected_msg\<close> has exactly the fields of the
  interface; \<open>word_selected_lang_msg\<close> carries a \<open>language\<close> field as well, which the
  handler reads.
\<close>

definition round_start_msg :: "jsstring \<Rightarrow> json" where
  "round_start_msg lang =
     JObj [(js_of ''type'', JStr (js_of ''round_start'')), (js_of ''language'', JStr lang)]"

definition word_selected_msg :: "jsstring \<Rightarrow> jsstring list \<Rightarrow> json" where
  "word_selected_msg w ids =
     JObj [(js_of ''type'', JStr (js_of ''word_selected'')), (js_of ''word'', JStr w),
           (js_of ''card_ids'', JArr (map JStr ids))]"

definition word_selected_lang_msg :: "jsstring \<Rightarrow> jsstring list \<Rightarrow> jsstring \<Rightarrow> json" where
  "word_selected_lang_msg w ids lang =
     JObj [(js_of ''type'', JStr (js_of ''word_selected'')), (js_of ''word'', JStr w),
           (js_of ''card_ids'', JArr (map JStr ids)), (js_of ''language'', JStr lang)]"

definition round_end_msg :: "jsstring \<Rightarrow> json list \<Rightarrow> json" where
  "round_end_msg lang ws =
     JObj [(js_of ''type'', JStr (js_of ''round_end'')), (js_of ''language'', JStr lang),
           (js_of ''winners'', JArr ws)]"

definition game_end_msg :: "jsstring list \<Rightarrow> json" where
  "game_end_msg ws =
     JObj [(js_of ''type'', JStr (js_of ''game_end'')), (js_of ''winners'', JArr (map JStr ws))]"

text \<open>A card as the parser makes it, with the given marked words.\<close>

definition sample_card :: "string \<Rightarrow> string \<Rightarrow> string list \<Rightarrow> string list \<Rightarrow> bingo_card" where
  "sample_card i lang ws marked =
     \<lparr>card_id = js_of i, words = map js_of ws, language = js_of lang,
      transmitted = False, markedWords = Some (map js_of marked)\<rparr>"

section \<open>The selector's contract\<close>

text \<open>
  \<open>is_first_best P cs k\<close>: among the cards of \<open>cs\<close> that satisfy \<open>P\<close>, the card at
  index \<open>k\<close> has the greatest number of marked words, and it is the first such card in
  stored order.
\<close>

definition is_first_best :: "(bingo_card \<Rightarrow> bool) \<Rightarrow> bingo_card list \<Rightarrow> nat \<Rightarrow> bool" where
  "is_first_best P cs k \<longleftrightarrow>
     k < length cs \<and> P (cs ! k)
     \<and> (\<forall>j < length cs. P (cs ! j) \<longrightarrow> markedCount (cs ! j) \<le> markedCount (cs ! k))
     \<and> (\<forall>j < k. P (cs ! j) \<longrightarrow> markedCount (cs ! j) < markedCount (cs ! k))"

text \<open>
  What one pair of running maximum \<open>m\<close> and index \<open>b\<close> of the scan holds after the cards
  \<open>cs\<close>.
\<close>

definition scan_inv :: "(bingo_card \<Rightarrow> bool) \<Rightarrow> bingo_card list \<Rightarrow> nat \<Rightarrow> nat \<Rightarrow> bool" where
  "scan_inv P cs m b \<longleftrightarrow>
     (if \<exists>c \<in> set cs. P c \<and> 0 < markedCount c
      then 0 < m \<and> m = markedCount (cs ! b) \<and> is_first_best P cs b
      else m = 0 \<and> b = 0)"

section \<open>Properties of the Language Classifier\<close>

lemma detectLanguage_loop_first:
  assumes "table = pre @ (lang, config) # post" "total_cfg config = n"
    and "\<forall>(l, c) \<in> set pre. total_cfg c \<noteq> n"
  shows "detectLanguage_loop table n = lang"
  using assms by (induction pre arbitrary: table) auto

lemma detectLanguage_loop_none:
  "\<forall>(l, c) \<in> set table. total_cfg c \<noteq> n \<Longrightarrow> detectLanguage_loop table n = js_of ''spanish''"
  by (induction table) auto

lemma detectLanguage_cases:
  "detectLanguage n =
     (if n = 24 then js_of ''spanish'' else if n = 14 then js_of ''english''
      else if n = 20 then js_of ''portuguese'' else if n = 10 then js_of ''dutch''
      else js_of ''spanish'')"
  by (simp add: detectLanguage_def LANGUAGE_CONFIGS_def)

text \<open>
  C4. For every word count \<open>n\<close>, \<open>detectLanguage n\<close> is the language of the one profile of
  \<open>LANGUAGE_CONFIGS\<close> whose total is \<open>n\<close>, and the default \<open>spanish\<close> when no profile
  has that total. On any table, also one in which two profiles share a total, the loop
  answers with the earliest entry whose total is \<open>n\<close>. Being a HOL function,
  \<open>detectLanguage\<close> is total and deterministic.
\<close>

theorem detectLanguage_classify:
  "(\<forall>lang config. (lang, config) \<in> set LANGUAGE_CONFIGS \<and> total_cfg config = n \<longrightarrow>
      detectLanguage n = lang
      \<and> (\<forall>lang' config'. (lang', config') \<in> set LANGUAGE_CONFIGS \<and> total_cfg config' = n
            \<longrightarrow> lang' = lang))
   \<and> ((\<forall>(lang, config) \<in> set LANGUAGE_CONFIGS. total_cfg config \<noteq> n) \<longrightarrow>
        detectLanguage n = js_of ''spanish'')
   \<and> (\<forall>table pre lang config post.
        table = pre @ (lang, config) # post \<and> total_cfg config = n
        \<and> (\<forall>(l, c) \<in> set pre. total_cfg c \<noteq> n) \<longrightarrow>
        detectLanguage_loop table n = lang)"
proof (intro conjI allI impI)
  fix lang config
  assume h: "(lang, config) \<in> set LANGUAGE_CONFIGS \<and> total_cfg config = n"
  then show "detectLanguage n = lang"
    by (auto simp: detectLanguage_cases LANGUAGE_CONFIGS_def)
  fix lang' config'
  assume "(lang', config') \<in> set LANGUAGE_CONFIGS \<and> total_cfg config' = n"
  with h show "lang' = lang"
    by (auto simp: LANGUAGE_CONFIGS_def)
next
  assume "\<forall>(lang, config) \<in> set LANGUAGE_CONFIGS. total_cfg config \<noteq> n"
  then show "detectLanguage n = js_of ''spanish''"
    unfolding detectLanguage_def by (rule detectLanguage_loop_none)
next
  fix table pre :: "(jsstring \<times> lang_config) list" and lang config post
  assume "table = pre @ (lang, config) # post \<and> total_cfg config = n
        \<and> (\<forall>(l, c) \<in> set pre. total_cfg c \<noteq> n)"
  then show "detectLanguage_loop table n = lang"
    using detectLanguage_loop_first by blast
qed

theorem detectLanguage_classify_witness:
  "(js_of ''english'', \<lparr>rows = 2, cols = 7, total_cfg = 14\<rparr>) \<in> set LANGUAGE_CONFIGS
   \<and> detectLanguage 14 = js_of ''english''
   \<and> detectLanguage 7 = js_of ''spanish''
   \<and> detectLanguage_loop
        [(js_of ''a'', \<lparr>rows = 1, cols = 3, total_cfg = 3\<rparr>),
         (js_of ''b'', \<lparr>rows = 3, cols = 1, total_cfg = 3\<rparr>)] 3 = js_of ''a''"
proof -
  have m: "(js_of ''english'', \<lparr>rows = 2, cols = 7, total_cfg = 14\<rparr>) \<in> set LANGUAGE_CONFIGS"
    by (simp add: LANGUAGE_CONFIGS_def)
  have n7: "\<forall>(lang, config) \<in> set LANGUAGE_CONFIGS. total_cfg config \<noteq> 7"
    by (simp add: LANGUAGE_CONFIGS_def)
  have a: "detectLanguage 14 = js_of ''english''"
    using detectLanguage_classify [of 14, THEN conjunct1, rule_format,
        of "js_of ''english''" "\<lparr>rows = 2, cols = 7, total_cfg = 14\<rparr>"] m by simp
  have b: "detectLanguage 7 = js_of ''spanish''"
    using detectLanguage_classify [of 7] n7 by blast
  have c: "detectLanguage_loop
        [(js_of ''a'', \<lparr>rows = 1, cols = 3, total_cfg = 3\<rparr>),
         (js_of ''b'', \<lparr>rows = 3, cols = 1, total_cfg = 3\<rparr>)] 3 = js_of ''a''"
    using detectLanguage_classify [of 3, THEN conjunct2, THEN conjunct2, rule_format,
        of _ "[]" "js_of ''a''" "\<lparr>rows = 1, cols = 3, total_cfg = 3\<rparr>"
           "[(js_of ''b'', \<lparr>rows = 3, cols = 1, total_cfg = 3\<rparr>)]"] by simp
  from m a b c show ?thesis by blast
qed

section \<open>Properties of the Card Parser\<close>

lemma tokens_aux_all_ws:
  "\<forall>c \<in> set t. is_ws c \<Longrightarrow> tokens_aux cur t = tokens_aux cur []"
  by (induction t arbitrary: cur) auto

lemma tokens_aux_append_ws:
  "\<forall>c \<in> set t. is_ws c \<Longrightarrow> tokens_aux cur (s @ t) = tokens_aux cur s"
proof (induction s arbitrary: cur)
  case Nil
  then show ?case using tokens_aux_all_ws [of t cur] by simp
next
  case (Cons a s)
  then show ?case by simp
qed

lemma tokens_aux_dropWhile:
  "tokens_aux [] (dropWhile is_ws s) = tokens_aux [] s"
  by (induction s) auto

lemma last_dropWhile_eq:
  "dropWhile p xs \<noteq> [] \<Longrightarrow> last (dropWhile p xs) = last xs"
  by (metis last_appendR takeWhile_dropWhile_id)

lemma split_ws_aux_tokens:
  assumes "cur \<noteq> [] \<or> (s \<noteq> [] \<and> \<not> is_ws (hd s))"
    and "s = [] \<or> \<not> is_ws (last s)"
  shows "split_ws_aux cur s = tokens_aux cur s"
  using assms
proof (induction cur s rule: split_ws_aux.induct)
  case (1 cur)
  then show ?case by simp
next
  case (2 cur c cs)
  show ?case
  proof (cases "is_ws c")
    case True
    with "2.prems" have cur: "cur \<noteq> []" by simp
    from True "2.prems" have cs: "cs \<noteq> []" "\<not> is_ws (last cs)" by (auto split: if_splits)
    then have "last cs \<in> set cs" by simp
    with cs have ex: "\<exists>x \<in> set cs. \<not> is_ws x" by blast
    then have d: "dropWhile is_ws cs \<noteq> []" by (simp add: dropWhile_eq_Nil_conv)
    have h: "\<not> is_ws (hd (dropWhile is_ws cs))" using d hd_dropWhile by blast
    have l: "last (dropWhile is_ws cs) = last cs" using d by (rule last_dropWhile_eq)
    have "split_ws_aux [] (dropWhile is_ws cs) = tokens_aux [] (dropWhile is_ws cs)"
      using "2.IH"(1) [OF True] d h l cs by simp
    with True cur show ?thesis by (simp add: tokens_aux_dropWhile)
  next
    case False
    from "2.prems" have "cs = [] \<or> \<not> is_ws (last cs)" by (auto split: if_splits)
    with "2.IH"(2) [OF False] False show ?thesis by simp
  qed
qed

lemma dropWhile_split_rev:
  "d = rev (dropWhile p (rev d)) @ rev (takeWhile p (rev d))"
  by (metis rev_append rev_rev_ident takeWhile_dropWhile_id)

lemma tokens_trim: "tokens (trim l) = tokens l"
proof -
  let ?d = "dropWhile is_ws l"
  have "?d = trim l @ rev (takeWhile is_ws (rev ?d))"
    unfolding trim_def by (rule dropWhile_split_rev)
  moreover have "\<forall>c \<in> set (rev (takeWhile is_ws (rev ?d))). is_ws c"
    by (auto dest: set_takeWhileD)
  ultimately have "tokens_aux [] ?d = tokens_aux [] (trim l)"
    using tokens_aux_append_ws by metis
  then show ?thesis by (simp add: tokens_def tokens_aux_dropWhile)
qed

lemma trim_ends:
  assumes "trim l \<noteq> []"
  shows "\<not> is_ws (hd (trim l))" "\<not> is_ws (last (trim l))"
proof -
  let ?d = "dropWhile is_ws l"
  let ?r = "dropWhile is_ws (rev ?d)"
  from assms have r: "?r \<noteq> []" by (simp add: trim_def)
  then have "\<not> is_ws (hd ?r)" using hd_dropWhile by blast
  with r show "\<not> is_ws (last (trim l))" by (simp add: trim_def last_rev)
  from r have d: "?d \<noteq> []" by (metis dropWhile.simps(1) rev.simps(1))
  then have hd: "\<not> is_ws (hd ?d)" using hd_dropWhile by blast
  have "?d = trim l @ rev (takeWhile is_ws (rev ?d))"
    unfolding trim_def by (rule dropWhile_split_rev)
  with assms have "hd ?d = hd (trim l)" by (metis hd_append2)
  with hd show "\<not> is_ws (hd (trim l))" by simp
qed

lemma split_ws_trim:
  "trim l \<noteq> [] \<Longrightarrow> split_ws (trim l) = tokens l"
  using split_ws_aux_tokens [of "[]" "trim l"] trim_ends [of l] tokens_trim [of l]
  by (simp add: split_ws_def tokens_def)

lemma tokens_blank: "trim l = [] \<Longrightarrow> tokens l = []"
  using tokens_trim [of l] by (simp add: tokens_def)

lemma parse_loop_eq:
  "\<forall>l \<in> set lines. trim l \<noteq> [] \<Longrightarrow>
   parse_loop lines cards =
     cards @ map card_of_tokens (filter (\<lambda>ts. 2 \<le> length ts) (map tokens lines))"
proof (induction lines arbitrary: cards)
  case Nil
  then show ?case by simp
next
  case (Cons line rest)
  then have t: "split_ws (trim line) = tokens line" by (simp add: split_ws_trim)
  have IH: "\<And>cs. parse_loop rest cs =
     cs @ map card_of_tokens (filter (\<lambda>ts. 2 \<le> length ts) (map tokens rest))"
    using Cons by simp
  show ?case
  proof (cases "length (tokens line) < 2")
    case True
    then show ?thesis using t IH by simp
  next
    case False
    then have "drop 1 (tokens line) = tl (tokens line)" "tl (tokens line) \<noteq> []"
      by (cases "tokens line"; auto simp: drop_Suc)+
    then show ?thesis using t IH False
      by (simp add: Let_def card_of_tokens_def)
  qed
qed

lemma filter_blank_tokens:
  "filter (\<lambda>ts. 2 \<le> length ts) (map tokens (filter (\<lambda>line. trim line \<noteq> []) ls)) =
   filter (\<lambda>ts. 2 \<le> length ts) (map tokens ls)"
  by (induction ls) (auto simp: tokens_blank)

lemma parseTxtFile_eq:
  "parseTxtFile content =
     map card_of_tokens (filter (\<lambda>ts. 2 \<le> length ts) (map tokens (split_nl content)))"
proof -
  let ?lines = "filter (\<lambda>line. trim line \<noteq> []) (split_nl content)"
  have "parse_loop ?lines [] =
     map card_of_tokens (filter (\<lambda>ts. 2 \<le> length ts) (map tokens ?lines))"
    using parse_loop_eq [of ?lines "[]"] by simp
  moreover have "?lines = [] \<Longrightarrow>
     map card_of_tokens (filter (\<lambda>ts. 2 \<le> length ts) (map tokens ?lines)) = []"
    by simp
  ultimately have "parseTxtFile content =
     map card_of_tokens (filter (\<lambda>ts. 2 \<le> length ts) (map tokens ?lines))"
    by (simp add: parseTxtFile_def Let_def)
  then show ?thesis by (simp only: filter_blank_tokens)
qed


lemma tokens_aux_run:
  "\<forall>c \<in> set t. \<not> is_ws c \<Longrightarrow> tokens_aux cur (t @ s) = tokens_aux (rev t @ cur) s"
  by (induction t arbitrary: cur) auto

lemma tokens_leading_ws: "is_ws c \<Longrightarrow> tokens (c # s) = tokens s"
  by (simp add: tokens_def)

lemma tokens_word:
  "t \<noteq> [] \<Longrightarrow> \<forall>c \<in> set t. \<not> is_ws c \<Longrightarrow> is_ws sep \<Longrightarrow>
   tokens (t @ sep # s) = t # tokens s \<and> tokens t = [t]"
  using tokens_aux_run [of t "[]" "sep # s"] tokens_aux_run [of t "[]" "[]"]
  by (simp add: tokens_def)

text \<open>
  C5. The cards \<open>parseTxtFile\<close> returns are, in the order of the lines, one card for
  every line that has at least two white-space delimited tokens: its id is the first
  token, its words are the remaining tokens in order, it is not transmitted and has no
  marked word. Lines with fewer than two tokens (blank lines among them) give no card.
  So \<open>"C1 a b c\nC2 x y"\<close> gives the two cards C1 = [a, b, c] and C2 = [x, y], and a
  file in which every line has at most one token gives no card.
\<close>

theorem parseTxtFile_cards:
  "parseTxtFile content =
     map card_of_tokens (filter (\<lambda>ts. 2 \<le> length ts) (map tokens (split_nl content)))
   \<and> parseTxtFile (js_of ''C1 a b c\<newline>C2 x y'') =
     [\<lparr>card_id = js_of ''C1'', words = [js_of ''a'', js_of ''b'', js_of ''c''],
       language = js_of ''spanish'', transmitted = False, markedWords = Some []\<rparr>,
      \<lparr>card_id = js_of ''C2'', words = [js_of ''x'', js_of ''y''],
       language = js_of ''spanish'', transmitted = False, markedWords = Some []\<rparr>]
   \<and> ((\<forall>line \<in> set (split_nl content). length (tokens line) \<le> 1) \<longrightarrow>
        parseTxtFile content = [])"
proof (intro conjI impI)
  show "parseTxtFile content =
     map card_of_tokens (filter (\<lambda>ts. 2 \<le> length ts) (map tokens (split_nl content)))"
    by (rule parseTxtFile_eq)
  show "parseTxtFile (js_of ''C1 a b c\<newline>C2 x y'') =
     [\<lparr>card_id = js_of ''C1'', words = [js_of ''a'', js_of ''b'', js_of ''c''],
       language = js_of ''spanish'', transmitted = False, markedWords = Some []\<rparr>,
      \<lparr>card_id = js_of ''C2'', words = [js_of ''x'', js_of ''y''],
       language = js_of ''spanish'', transmitted = False, markedWords = Some []\<rparr>]"
    by (simp add: parseTxtFile_eq split_nl_def tokens_def card_of_tokens_def js_of_def
        is_ws_def detectLanguage_def LANGUAGE_CONFIGS_def)
  assume "\<forall>line \<in> set (split_nl content). length (tokens line) \<le> 1"
  then have "filter (\<lambda>ts. 2 \<le> length ts) (map tokens (split_nl content)) = []"
    by (auto simp: filter_empty_conv)
  then show "parseTxtFile content = []"
    by (simp add: parseTxtFile_eq)
qed

theorem parseTxtFile_cards_witness:
  "split_nl (js_of ''C1\<newline> \<newline>C2 '') = [js_of ''C1'', js_of '' '', js_of ''C2 '']
   \<and> tokens (js_of ''C1'') = [js_of ''C1'']
   \<and> tokens (js_of '' '') = []
   \<and> tokens (js_of ''C2 '') = [js_of ''C2'']
   \<and> parseTxtFile (js_of ''C1\<newline> \<newline>C2 '') = []"
proof -
  have s: "split_nl (js_of ''C1\<newline> \<newline>C2 '') = [js_of ''C1'', js_of '' '', js_of ''C2 '']"
    by (simp add: split_nl_def js_of_def)
  have t: "tokens (js_of ''C1'') = [js_of ''C1'']" "tokens (js_of '' '') = []"
    "tokens (js_of ''C2 '') = [js_of ''C2'']"
    by (simp_all add: tokens_def js_of_def is_ws_def)
  have "\<forall>line \<in> set (split_nl (js_of ''C1\<newline> \<newline>C2 '')). length (tokens line) \<le> 1"
    by (simp add: s t)
  then have "parseTxtFile (js_of ''C1\<newline> \<newline>C2 '') = []"
    using parseTxtFile_cards [of "js_of ''C1\<newline> \<newline>C2 ''"] by blast
  with s t show ?thesis by blast
qed

section \<open>Properties of word marking\<close>

lemma map_cards_Inr:
  "map_cards f cs = Inr cs' \<longleftrightarrow> list_all2 (\<lambda>c c'. f c = Inr c') cs cs'"
proof (induction cs arbitrary: cs')
  case Nil
  then show ?case by auto
next
  case (Cons c cs)
  show ?case
    by (cases cs') (auto simp: Cons.IH [symmetric] split: sum.splits)
qed

lemma map_cards_total:
  "\<forall>c \<in> set cs. \<exists>c'. f c = Inr c' \<Longrightarrow> \<exists>cs'. map_cards f cs = Inr cs'"
  by (induction cs) (auto split: sum.splits)

lemma map_cards_id: "\<forall>c \<in> set cs. f c = Inr c \<Longrightarrow> map_cards f cs = Inr cs"
  by (induction cs) auto

lemma mark_card_JArr:
  "mark_card (Some (JArr ids)) (Some (JStr w)) c =
     Inr (if JStr (card_id c) \<in> set ids \<and> w \<in> set (words c) \<and> w \<notin> set (marked_of c)
          then c\<lparr>markedWords := Some (marked_of c @ [w])\<rparr> else c)"
  by (simp add: mark_card_def Let_def)

lemma mark_card_falsy: "\<not> truthy ids \<Longrightarrow> mark_card ids w c = Inr c"
  by (simp add: mark_card_def)

lemma mark_card_frame:
  assumes "mark_card ids w c = Inr c'"
  shows "c' = c \<or>
     (\<exists>v. w = Some (JStr v) \<and> truthy ids \<and> includes_id (the ids) (card_id c) = Inr True
        \<and> v \<in> set (words c) \<and> v \<notin> set (marked_of c)
        \<and> c' = c\<lparr>markedWords := Some (marked_of c @ [v])\<rparr>)"
  using assms
  by (auto simp: mark_card_def Let_def split: if_splits sum.splits option.splits json.splits)

lemma mark_card_idem:
  assumes "mark_card ids w c = Inr c'"
  shows "mark_card ids w c' = Inr c'"
proof -
  from mark_card_frame [OF assms] show ?thesis
  proof
    assume "c' = c"
    with assms show ?thesis by simp
  next
    assume "\<exists>v. w = Some (JStr v) \<and> truthy ids \<and> includes_id (the ids) (card_id c) = Inr True
        \<and> v \<in> set (words c) \<and> v \<notin> set (marked_of c)
        \<and> c' = c\<lparr>markedWords := Some (marked_of c @ [v])\<rparr>"
    then obtain v where "w = Some (JStr v)" "truthy ids"
      "includes_id (the ids) (card_id c) = Inr True"
      "c' = c\<lparr>markedWords := Some (marked_of c @ [v])\<rparr>" by blast
    then show ?thesis by (simp add: mark_card_def Let_def marked_of_def)
  qed
qed

lemma map_cards_idem:
  "map_cards (mark_card ids w) cs = Inr cs' \<Longrightarrow> map_cards (mark_card ids w) cs' = Inr cs'"
proof -
  assume "map_cards (mark_card ids w) cs = Inr cs'"
  then have "list_all2 (\<lambda>c c'. mark_card ids w c = Inr c') cs cs'"
    by (simp add: map_cards_Inr)
  then have "\<forall>c' \<in> set cs'. mark_card ids w c' = Inr c'"
    by (induction rule: list_all2_induct) (auto dest: mark_card_idem)
  then show ?thesis by (rule map_cards_id)
qed

lemma tag_neq [simp]:
  "js_of ''word_selected'' \<noteq> js_of ''player_count''"
  "js_of ''word_selected'' \<noteq> js_of ''game_started''"
  "js_of ''word_selected'' \<noteq> js_of ''round_start''"
  "js_of ''game_end'' \<noteq> js_of ''player_count''"
  "js_of ''game_end'' \<noteq> js_of ''game_started''"
  "js_of ''game_end'' \<noteq> js_of ''round_start''"
  "js_of ''game_end'' \<noteq> js_of ''word_selected''"
  "js_of ''game_end'' \<noteq> js_of ''round_end''"
  "js_of ''round_end'' \<noteq> js_of ''player_count''"
  "js_of ''round_end'' \<noteq> js_of ''game_started''"
  "js_of ''round_end'' \<noteq> js_of ''round_start''"
  "js_of ''round_end'' \<noteq> js_of ''word_selected''"
  by (simp_all add: js_of_def)

lemma handle_word_selected:
  assumes "js_prop data (js_of ''type'') = Some (JStr (js_of ''word_selected''))"
  shows "handleWebSocketMessage data st =
     (case map_cards (mark_card (js_prop data (js_of ''card_ids''))
                                (js_prop data (js_of ''word''))) (bingoCards st) of
        Inl e \<Rightarrow> Crashed e
      | Inr updated \<Rightarrow>
          Returned (st\<lparr>currentWord := js_prop data (js_of ''word''),
                       bingoCards := updated,
                       selectedCardIndex :=
                         select_best (js_prop data (js_of ''language'')) updated\<rparr>))"
proof -
  from assms have "data \<noteq> JNull" by auto
  with assms show ?thesis by (simp add: handleWebSocketMessage_def)
qed

lemma handle_word_selected_idem:
  assumes ty: "js_prop data (js_of ''type'') = Some (JStr (js_of ''word_selected''))"
    and r: "handleWebSocketMessage data st = Returned st1"
  shows "handleWebSocketMessage data st1 = Returned st1"
proof -
  let ?f = "mark_card (js_prop data (js_of ''card_ids'')) (js_prop data (js_of ''word''))"
  from r obtain updated where m: "map_cards ?f (bingoCards st) = Inr updated"
    and st1: "st1 = st\<lparr>currentWord := js_prop data (js_of ''word''),
                       bingoCards := updated,
                       selectedCardIndex :=
                         select_best (js_prop data (js_of ''language'')) updated\<rparr>"
    by (auto simp: handle_word_selected [OF ty] split: sum.splits)
  from m have "map_cards ?f updated = Inr updated" by (rule map_cards_idem)
  then show ?thesis by (simp add: handle_word_selected [OF ty] st1)
qed

lemma map_cards_pure: "(\<And>c. f c = Inr (g c)) \<Longrightarrow> map_cards f cs = Inr (map g cs)"
  by (induction cs) auto

lemma mark_card_total:
  "\<not> truthy ids \<or> (\<exists>xs. ids = Some (JArr xs)) \<or> (\<exists>s. ids = Some (JStr s)) \<Longrightarrow>
   \<exists>c'. mark_card ids w c = Inr c'"
  by (auto simp: mark_card_def Let_def split: option.splits json.splits)

lemma mark_card_fields:
  "mark_card ids w c = Inr c' \<Longrightarrow>
   card_id c' = card_id c \<and> words c' = words c \<and> language c' = language c
   \<and> transmitted c' = transmitted c"
  by (drule mark_card_frame) auto

text \<open>
  C6. A \<open>word_selected\<close> message with the word \<open>w\<close> and the array \<open>ids\<close> as
  \<open>card_ids\<close> is handled without failure; it appends \<open>w\<close> to the marked words of
  exactly the cards whose id is in \<open>ids\<close>, whose words contain \<open>w\<close> and which have
  not marked \<open>w\<close> yet, and leaves every other card as it is. Handling the same message
  again changes nothing, so no word is ever marked twice.
\<close>

theorem word_selected_marks_idempotent:
  assumes ty: "js_prop data (js_of ''type'') = Some (JStr (js_of ''word_selected''))"
    and w: "js_prop data (js_of ''word'') = Some (JStr w)"
    and ids: "js_prop data (js_of ''card_ids'') = Some (JArr ids)"
  shows "\<exists>st1. handleWebSocketMessage data st = Returned st1
     \<and> length (bingoCards st1) = length (bingoCards st)
     \<and> (\<forall>i < length (bingoCards st).
          bingoCards st1 ! i =
            (if JStr (card_id (bingoCards st ! i)) \<in> set ids
                \<and> w \<in> set (words (bingoCards st ! i))
                \<and> w \<notin> set (marked_of (bingoCards st ! i))
             then (bingoCards st ! i)\<lparr>markedWords := Some (marked_of (bingoCards st ! i) @ [w])\<rparr>
             else bingoCards st ! i))
     \<and> handleWebSocketMessage data st1 = Returned st1"
proof -
  let ?g = "\<lambda>c. if JStr (card_id c) \<in> set ids \<and> w \<in> set (words c) \<and> w \<notin> set (marked_of c)
          then c\<lparr>markedWords := Some (marked_of c @ [w])\<rparr> else c"
  let ?st1 = "st\<lparr>currentWord := js_prop data (js_of ''word''),
                       bingoCards := map ?g (bingoCards st),
                       selectedCardIndex :=
                         select_best (js_prop data (js_of ''language'')) (map ?g (bingoCards st))\<rparr>"
  have m: "map_cards (mark_card (Some (JArr ids)) (Some (JStr w))) (bingoCards st)
      = Inr (map ?g (bingoCards st))"
    by (rule map_cards_pure) (rule mark_card_JArr)
  then have r: "handleWebSocketMessage data st = Returned ?st1"
    by (simp add: handle_word_selected [OF ty] w ids)
  then have "handleWebSocketMessage data ?st1 = Returned ?st1"
    by (rule handle_word_selected_idem [OF ty])
  with r show ?thesis by (intro exI [of _ ?st1]) simp
qed

theorem word_selected_marks_idempotent_witness:
  "\<exists>st1. handleWebSocketMessage (word_selected_msg (js_of ''b'') [js_of ''C1''])
            (init_state\<lparr>bingoCards :=
               [sample_card ''C1'' ''es'' [''a'', ''b''] [''a''],
                sample_card ''C2'' ''es'' [''a'', ''b''] []]\<rparr>) = Returned st1
     \<and> bingoCards st1 =
          [sample_card ''C1'' ''es'' [''a'', ''b''] [''a'', ''b''],
           sample_card ''C2'' ''es'' [''a'', ''b''] []]
     \<and> handleWebSocketMessage (word_selected_msg (js_of ''b'') [js_of ''C1'']) st1 = Returned st1"
proof -
  let ?d = "word_selected_msg (js_of ''b'') [js_of ''C1'']"
  let ?st = "init_state\<lparr>bingoCards :=
               [sample_card ''C1'' ''es'' [''a'', ''b''] [''a''],
                sample_card ''C2'' ''es'' [''a'', ''b''] []]\<rparr>"
  have ty: "js_prop ?d (js_of ''type'') = Some (JStr (js_of ''word_selected''))"
    by (simp add: word_selected_msg_def)
  have w: "js_prop ?d (js_of ''word'') = Some (JStr (js_of ''b''))"
    by (simp add: word_selected_msg_def js_of_def)
  have ids: "js_prop ?d (js_of ''card_ids'') = Some (JArr [JStr (js_of ''C1'')])"
    by (simp add: word_selected_msg_def js_of_def)
  from word_selected_marks_idempotent [OF ty w ids, of ?st]
  obtain st1 where r: "handleWebSocketMessage ?d ?st = Returned st1"
    and l: "length (bingoCards st1) = length (bingoCards ?st)"
    and e: "\<forall>i < length (bingoCards ?st).
          bingoCards st1 ! i =
            (if JStr (card_id (bingoCards ?st ! i)) \<in> set [JStr (js_of ''C1'')]
                \<and> js_of ''b'' \<in> set (words (bingoCards ?st ! i))
                \<and> js_of ''b'' \<notin> set (marked_of (bingoCards ?st ! i))
             then (bingoCards ?st ! i)\<lparr>markedWords := Some (marked_of (bingoCards ?st ! i) @ [js_of ''b''])\<rparr>
             else bingoCards ?st ! i)"
    and i: "handleWebSocketMessage ?d st1 = Returned st1" by blast
  from l have l2: "length (bingoCards st1) = 2" by simp
  from e have "bingoCards st1 ! 0 = sample_card ''C1'' ''es'' [''a'', ''b''] [''a'', ''b'']"
    by (simp add: sample_card_def marked_of_def js_of_def)
  moreover from e have "bingoCards st1 ! 1 = sample_card ''C2'' ''es'' [''a'', ''b''] []"
    by (simp add: sample_card_def marked_of_def js_of_def)
  ultimately have "bingoCards st1 =
          [sample_card ''C1'' ''es'' [''a'', ''b''] [''a'', ''b''],
           sample_card ''C2'' ''es'' [''a'', ''b''] []]"
    using l2 by (auto simp: list_eq_iff_nth_eq less_Suc_eq numeral_2_eq_2)
  with r i show ?thesis by blast
qed

text \<open>
  C9. A \<open>word_selected\<close> message whose \<open>card_ids\<close> is absent, falsy, an array or a string
  is handled without failure. Whenever the handler returns, the store keeps its length
  and order, every card keeps its id, words, language and transmitted flag, and a card
  is either unchanged or it matched (its id is in \<open>card_ids\<close>, its words contain the
  word) and the word was appended at the end of its marked words.
\<close>

theorem word_selected_frame:
  assumes ty: "js_prop data (js_of ''type'') = Some (JStr (js_of ''word_selected''))"
  shows "((\<not> truthy (js_prop data (js_of ''card_ids''))
           \<or> (\<exists>xs. js_prop data (js_of ''card_ids'') = Some (JArr xs))
           \<or> (\<exists>s. js_prop data (js_of ''card_ids'') = Some (JStr s))) \<longrightarrow>
          (\<exists>st1. handleWebSocketMessage data st = Returned st1))
     \<and> (\<forall>st1. handleWebSocketMessage data st = Returned st1 \<longrightarrow>
          length (bingoCards st1) = length (bingoCards st)
          \<and> (\<forall>i < length (bingoCards st).
                card_id (bingoCards st1 ! i) = card_id (bingoCards st ! i)
              \<and> words (bingoCards st1 ! i) = words (bingoCards st ! i)
              \<and> language (bingoCards st1 ! i) = language (bingoCards st ! i)
              \<and> transmitted (bingoCards st1 ! i) = transmitted (bingoCards st ! i)
              \<and> (bingoCards st1 ! i = bingoCards st ! i
                 \<or> (\<exists>v. js_prop data (js_of ''word'') = Some (JStr v)
                      \<and> truthy (js_prop data (js_of ''card_ids''))
                      \<and> includes_id (the (js_prop data (js_of ''card_ids'')))
                            (card_id (bingoCards st ! i)) = Inr True
                      \<and> v \<in> set (words (bingoCards st ! i))
                      \<and> v \<notin> set (marked_of (bingoCards st ! i))
                      \<and> bingoCards st1 ! i =
                          (bingoCards st ! i)\<lparr>markedWords :=
                             Some (marked_of (bingoCards st ! i) @ [v])\<rparr>))))"
proof (intro conjI impI allI)
  let ?ids = "js_prop data (js_of ''card_ids'')"
  let ?w = "js_prop data (js_of ''word'')"
  {
    assume "\<not> truthy ?ids \<or> (\<exists>xs. ?ids = Some (JArr xs)) \<or> (\<exists>s. ?ids = Some (JStr s))"
    then have "\<forall>c \<in> set (bingoCards st). \<exists>c'. mark_card ?ids ?w c = Inr c'"
      using mark_card_total by blast
    then obtain cs' where "map_cards (mark_card ?ids ?w) (bingoCards st) = Inr cs'"
      using map_cards_total by blast
    then show "\<exists>st1. handleWebSocketMessage data st = Returned st1"
      by (simp add: handle_word_selected [OF ty])
  }
  fix st1
  assume r: "handleWebSocketMessage data st = Returned st1"
  then obtain updated where m: "map_cards (mark_card ?ids ?w) (bingoCards st) = Inr updated"
    and u: "bingoCards st1 = updated"
    by (auto simp: handle_word_selected [OF ty] split: sum.splits)
  from m have la: "list_all2 (\<lambda>c c'. mark_card ?ids ?w c = Inr c') (bingoCards st) (bingoCards st1)"
    by (simp add: map_cards_Inr u)
  then show len: "length (bingoCards st1) = length (bingoCards st)"
    by (simp add: list_all2_lengthD)
  fix i
  assume "i < length (bingoCards st)"
  with la have mc: "mark_card ?ids ?w (bingoCards st ! i) = Inr (bingoCards st1 ! i)"
    by (rule list_all2_nthD)
  from mark_card_fields [OF mc]
  show "card_id (bingoCards st1 ! i) = card_id (bingoCards st ! i)"
    "words (bingoCards st1 ! i) = words (bingoCards st ! i)"
    "language (bingoCards st1 ! i) = language (bingoCards st ! i)"
    "transmitted (bingoCards st1 ! i) = transmitted (bingoCards st ! i)"
    by simp_all
  from mark_card_frame [OF mc]
  show "bingoCards st1 ! i = bingoCards st ! i
         \<or> (\<exists>v. ?w = Some (JStr v) \<and> truthy ?ids
              \<and> includes_id (the ?ids) (card_id (bingoCards st ! i)) = Inr True
              \<and> v \<in> set (words (bingoCards st ! i))
              \<and> v \<notin> set (marked_of (bingoCards st ! i))
              \<and> bingoCards st1 ! i =
                  (bingoCards st ! i)\<lparr>markedWords := Some (marked_of (bingoCards st ! i) @ [v])\<rparr>)"
    .
qed

theorem word_selected_frame_witness:
  "\<exists>st1. handleWebSocketMessage (word_selected_msg (js_of ''b'') [js_of ''C1''])
            (init_state\<lparr>bingoCards :=
               [sample_card ''C1'' ''es'' [''a'', ''b''] [''a''],
                sample_card ''C2'' ''es'' [''a'', ''b''] []]\<rparr>) = Returned st1
     \<and> length (bingoCards st1) = 2
     \<and> card_id (bingoCards st1 ! 0) = js_of ''C1''
     \<and> words (bingoCards st1 ! 0) = [js_of ''a'', js_of ''b'']
     \<and> language (bingoCards st1 ! 0) = js_of ''es''
     \<and> transmitted (bingoCards st1 ! 0) = False
     \<and> card_id (bingoCards st1 ! 1) = js_of ''C2''
     \<and> transmitted (bingoCards st1 ! 1) = False"
proof -
  let ?d = "word_selected_msg (js_of ''b'') [js_of ''C1'']"
  let ?st = "init_state\<lparr>bingoCards :=
               [sample_card ''C1'' ''es'' [''a'', ''b''] [''a''],
                sample_card ''C2'' ''es'' [''a'', ''b''] []]\<rparr>"
  have ty: "js_prop ?d (js_of ''type'') = Some (JStr (js_of ''word_selected''))"
    by (simp add: word_selected_msg_def)
  have ids: "\<exists>xs. js_prop ?d (js_of ''card_ids'') = Some (JArr xs)"
    by (simp add: word_selected_msg_def js_of_def)
  note f = word_selected_frame [OF ty, of ?st]
  from f ids obtain st1 where r: "handleWebSocketMessage ?d ?st = Returned st1" by blast
  from f r have l: "length (bingoCards st1) = length (bingoCards ?st)" by blast
  from f r have
    "card_id (bingoCards st1 ! 0) = card_id (bingoCards ?st ! 0)
     \<and> words (bingoCards st1 ! 0) = words (bingoCards ?st ! 0)
     \<and> language (bingoCards st1 ! 0) = language (bingoCards ?st ! 0)
     \<and> transmitted (bingoCards st1 ! 0) = transmitted (bingoCards ?st ! 0)"
    by (simp add: sample_card_def)
  moreover from f r have
    "card_id (bingoCards st1 ! 1) = card_id (bingoCards ?st ! 1)
     \<and> transmitted (bingoCards st1 ! 1) = transmitted (bingoCards ?st ! 1)"
    by (simp add: sample_card_def)
  ultimately show ?thesis using r l
    by (intro exI [of _ st1]) (simp add: sample_card_def)
qed

text \<open>
  C10. A \<open>word_selected\<close> message whose \<open>card_ids\<close> is absent or \<open>null\<close> is handled
  without failure and without a log entry: \<open>currentWord\<close> becomes the word of the
  message and every card of the store is unchanged.
\<close>

theorem word_selected_without_card_ids:
  assumes ty: "js_prop data (js_of ''type'') = Some (JStr (js_of ''word_selected''))"
    and ids: "js_prop data (js_of ''card_ids'') = None
              \<or> js_prop data (js_of ''card_ids'') = Some JNull"
  shows "\<exists>st1. onmessage (Some data) st = Inr st1
     \<and> handleWebSocketMessage data st = Returned st1
     \<and> currentWord st1 = js_prop data (js_of ''word'')
     \<and> bingoCards st1 = bingoCards st
     \<and> console st1 = console st"
proof -
  from ids have "\<not> truthy (js_prop data (js_of ''card_ids''))" by auto
  then have "map_cards (mark_card (js_prop data (js_of ''card_ids''))
                                  (js_prop data (js_of ''word''))) (bingoCards st)
             = Inr (bingoCards st)"
    by (intro map_cards_id ballI mark_card_falsy)
  then show ?thesis
    by (simp add: onmessage_def handle_word_selected [OF ty])
qed

theorem word_selected_without_card_ids_witness:
  "\<exists>st1. onmessage
       (Some (JObj [(js_of ''type'', JStr (js_of ''word_selected'')),
                    (js_of ''word'', JStr (js_of ''b''))]))
       (init_state\<lparr>bingoCards := [sample_card ''C1'' ''es'' [''a'', ''b''] [''a'']]\<rparr>) = Inr st1
     \<and> currentWord st1 = Some (JStr (js_of ''b''))
     \<and> bingoCards st1 = [sample_card ''C1'' ''es'' [''a'', ''b''] [''a'']]"
proof -
  let ?d = "JObj [(js_of ''type'', JStr (js_of ''word_selected'')),
                    (js_of ''word'', JStr (js_of ''b''))]"
  let ?st = "init_state\<lparr>bingoCards := [sample_card ''C1'' ''es'' [''a'', ''b''] [''a'']]\<rparr>"
  have ty: "js_prop ?d (js_of ''type'') = Some (JStr (js_of ''word_selected''))"
    by simp
  have ids: "js_prop ?d (js_of ''card_ids'') = None
              \<or> js_prop ?d (js_of ''card_ids'') = Some JNull"
    by (simp add: js_of_def)
  have w: "js_prop ?d (js_of ''word'') = Some (JStr (js_of ''b''))"
    by (simp add: js_of_def)
  from word_selected_without_card_ids [OF ty ids, of ?st]
  obtain st1 where a: "onmessage (Some ?d) ?st = Inr st1"
    and b: "currentWord st1 = js_prop ?d (js_of ''word'')"
    and c: "bingoCards st1 = bingoCards ?st" by blast
  have c': "bingoCards ?st = [sample_card ''C1'' ''es'' [''a'', ''b''] [''a'']]" by simp
  from a b [unfolded w] c [unfolded c'] show ?thesis by blast
qed

section \<open>Properties of the dispatcher\<close>

lemma handle_game_end:
  assumes "js_prop data (js_of ''type'') = Some (JStr (js_of ''game_end''))"
  shows "handleWebSocketMessage data st =
     Returned (st\<lparr>winners := js_prop data (js_of ''winners''),
                  showWinnersModal := True, showRoundModal := False\<rparr>)"
proof -
  from assms have "data \<noteq> JNull" by auto
  with assms show ?thesis by (simp add: handleWebSocketMessage_def)
qed

lemma handle_round_end:
  assumes "js_prop data (js_of ''type'') = Some (JStr (js_of ''round_end''))"
  shows "handleWebSocketMessage data st =
     Returned (st\<lparr>currentWord := Some (JStr []),
                  roundResults :=
                    \<lparr>rr_winners =
                       (if truthy (js_prop data (js_of ''winners''))
                        then js_prop data (js_of ''winners'') else Some (JArr [])),
                     rr_language = js_prop data (js_of ''language'')\<rparr>,
                  showRoundModal := True\<rparr>)"
proof -
  from assms have "data \<noteq> JNull" by auto
  with assms show ?thesis by (simp add: handleWebSocketMessage_def)
qed

text \<open>
  The \<open>game_end\<close> case does not touch \<open>currentWord\<close>: from the initial state, a
  \<open>word_selected\<close> message for the word x followed by a \<open>game_end\<close> message leaves
  \<open>currentWord\<close> at x, which is not empty.
\<close>

theorem game_end_keeps_currentWord_counterexample:
  "run [Message (Some (word_selected_msg (js_of ''x'') [])),
        Message (Some (game_end_msg [js_of ''Ana'']))] init_state =
     Inr (init_state\<lparr>currentWord := Some (JStr (js_of ''x'')),
                     winners := Some (JArr [JStr (js_of ''Ana'')]),
                     showWinnersModal := True\<rparr>)
   \<and> Some (JStr (js_of ''x'')) \<noteq> Some (JStr [])"
  by (simp add: onmessage_def handleWebSocketMessage_def word_selected_msg_def
      game_end_msg_def init_state_def select_best_def js_of_def)

text \<open>
  C3, as the code has it. A \<open>game_end\<close> message stores the winners, shows the winners
  and hides the round result, and changes nothing else: \<open>currentWord\<close> is what it was
  before the message. It is empty when the message comes after a \<open>round_end\<close> message,
  which clears it.
\<close>

theorem game_end_effect:
  assumes ty: "js_prop data (js_of ''type'') = Some (JStr (js_of ''game_end''))"
  shows "onmessage (Some data) st =
           Inr (st\<lparr>winners := js_prop data (js_of ''winners''),
                   showWinnersModal := True, showRoundModal := False\<rparr>)
     \<and> (\<forall>st'. onmessage (Some data) st = Inr st' \<longrightarrow>
           winners st' = js_prop data (js_of ''winners'')
           \<and> showRoundModal st' = False
           \<and> currentWord st' = currentWord st)
     \<and> (\<forall>rdata. js_prop rdata (js_of ''type'') = Some (JStr (js_of ''round_end'')) \<longrightarrow>
           (\<exists>st1 st2. onmessage (Some rdata) st = Inr st1
              \<and> onmessage (Some data) st1 = Inr st2
              \<and> currentWord st2 = Some (JStr [])
              \<and> showRoundModal st2 = False
              \<and> winners st2 = js_prop data (js_of ''winners'')))"
  by (auto simp: onmessage_def handle_game_end [OF ty] handle_round_end)

theorem game_end_effect_witness:
  "onmessage (Some (game_end_msg [js_of ''Ana'']))
      (init_state\<lparr>currentWord := Some (JStr (js_of ''x'')), showRoundModal := True\<rparr>) =
     Inr (init_state\<lparr>currentWord := Some (JStr (js_of ''x'')), showRoundModal := False,
                     winners := Some (JArr [JStr (js_of ''Ana'')]),
                     showWinnersModal := True\<rparr>)
   \<and> (\<exists>st1 st2. onmessage (Some (round_end_msg (js_of ''es'') []))
                   (init_state\<lparr>currentWord := Some (JStr (js_of ''x''))\<rparr>) = Inr st1
         \<and> onmessage (Some (game_end_msg [js_of ''Ana''])) st1 = Inr st2
         \<and> currentWord st2 = Some (JStr []))"
proof -
  have ty: "js_prop (game_end_msg [js_of ''Ana'']) (js_of ''type'')
      = Some (JStr (js_of ''game_end''))"
    by (simp add: game_end_msg_def)
  have w: "js_prop (game_end_msg [js_of ''Ana'']) (js_of ''winners'')
      = Some (JArr [JStr (js_of ''Ana'')])"
    by (simp add: game_end_msg_def js_of_def)
  have rty: "js_prop (round_end_msg (js_of ''es'') []) (js_of ''type'')
      = Some (JStr (js_of ''round_end''))"
    by (simp add: round_end_msg_def)
  have a: "onmessage (Some (game_end_msg [js_of ''Ana'']))
      (init_state\<lparr>currentWord := Some (JStr (js_of ''x'')), showRoundModal := True\<rparr>) =
     Inr (init_state\<lparr>currentWord := Some (JStr (js_of ''x'')), showRoundModal := False,
                     winners := Some (JArr [JStr (js_of ''Ana'')]),
                     showWinnersModal := True\<rparr>)"
    using game_end_effect [OF ty, THEN conjunct1,
        of "init_state\<lparr>currentWord := Some (JStr (js_of ''x'')), showRoundModal := True\<rparr>"]
    by (simp add: w)
  have b: "\<exists>st1 st2. onmessage (Some (round_end_msg (js_of ''es'') []))
                   (init_state\<lparr>currentWord := Some (JStr (js_of ''x''))\<rparr>) = Inr st1
         \<and> onmessage (Some (game_end_msg [js_of ''Ana''])) st1 = Inr st2
         \<and> currentWord st2 = Some (JStr [])"
    using game_end_effect [OF ty, THEN conjunct2, THEN conjunct2, rule_format, OF rty,
        of "init_state\<lparr>currentWord := Some (JStr (js_of ''x''))\<rparr>"]
    by blast
  from a b show ?thesis by blast
qed

text \<open>
  C8. A message that cannot be decoded is logged and changes nothing else; so is the
  decoded value \<open>null\<close>, on which reading \<open>data.type\<close> throws inside the \<open>try\<close>. A
  decoded message whose type is none of the six known tags leaves the state as it is.
  In all three cases \<open>onmessage\<close> returns normally.
\<close>

theorem onmessage_robust:
  "onmessage None st = Inr (st\<lparr>console := console st @ [SyntaxError]\<rparr>)
   \<and> onmessage (Some JNull) st = Inr (st\<lparr>console := console st @ [TypeError]\<rparr>)
   \<and> (data \<noteq> JNull
        \<and> js_prop data (js_of ''type'') \<notin>
            {Some (JStr (js_of ''player_count'')), Some (JStr (js_of ''game_started'')),
             Some (JStr (js_of ''round_start'')), Some (JStr (js_of ''word_selected'')),
             Some (JStr (js_of ''round_end'')), Some (JStr (js_of ''game_end''))}
      \<longrightarrow> onmessage (Some data) st = Inr st)"
  by (simp add: onmessage_def handleWebSocketMessage_def)

theorem onmessage_robust_witness:
  "onmessage (Some (JObj [(js_of ''type'', JStr (js_of ''ping''))])) init_state = Inr init_state
   \<and> onmessage (Some (JNum 5)) init_state = Inr init_state
   \<and> onmessage None init_state = Inr (init_state\<lparr>console := [SyntaxError]\<rparr>)"
proof -
  have a: "onmessage (Some (JObj [(js_of ''type'', JStr (js_of ''ping''))])) init_state
       = Inr init_state"
    using onmessage_robust [of init_state "JObj [(js_of ''type'', JStr (js_of ''ping''))]"]
    by (simp add: js_of_def)
  have b: "onmessage (Some (JNum 5)) init_state = Inr init_state"
    using onmessage_robust [of init_state "JNum 5"] by simp
  have c: "onmessage None init_state = Inr (init_state\<lparr>console := [SyntaxError]\<rparr>)"
    using onmessage_robust [of init_state JNull] by (simp add: init_state_def)
  from a b c show ?thesis by blast
qed

section \<open>Properties of the Best-Card Selector\<close>

lemma scan_inv_step:
  assumes "scan_inv P xs m b"
  shows "scan_inv P (xs @ [x])
           (if P x \<and> markedCount x > m then markedCount x else m)
           (if P x \<and> markedCount x > m then length xs else b)"
proof (cases "\<exists>c \<in> set xs. P c \<and> 0 < markedCount c")
  case True
  with assms have m: "0 < m" "m = markedCount (xs ! b)" and fb: "is_first_best P xs b"
    by (simp_all add: scan_inv_def)
  from fb have b: "b < length xs" by (simp add: is_first_best_def)
  from True have ex: "\<exists>c \<in> set (xs @ [x]). P c \<and> 0 < markedCount c" by auto
  show ?thesis
  proof (cases "P x \<and> markedCount x > m")
    case True
    have "is_first_best P (xs @ [x]) (length xs)"
      using True fb m unfolding is_first_best_def
      by (auto simp: nth_append less_Suc_eq)
    with True ex show ?thesis by (auto simp: scan_inv_def)
  next
    case False
    have "is_first_best P (xs @ [x]) b"
      using False fb m b unfolding is_first_best_def
      by (auto simp: nth_append less_Suc_eq)
    with False ex m b show ?thesis by (auto simp: scan_inv_def nth_append)
  qed
next
  case False
  with assms have m: "m = 0" "b = 0" by (simp_all add: scan_inv_def)
  from False have z: "\<forall>j < length xs. P (xs ! j) \<longrightarrow> markedCount (xs ! j) = 0"
    by (metis bot_nat_0.not_eq_extremum nth_mem)
  show ?thesis
  proof (cases "P x \<and> markedCount x > 0")
    case True
    have "is_first_best P (xs @ [x]) (length xs)"
      using True z unfolding is_first_best_def
      by (auto simp: nth_append less_Suc_eq)
    with True m show ?thesis by (auto simp: scan_inv_def)
  next
    case False
    with \<open>\<not> (\<exists>c \<in> set xs. P c \<and> 0 < markedCount c)\<close>
    have "\<not> (\<exists>c \<in> set (xs @ [x]). P c \<and> 0 < markedCount c)" by auto
    with False m show ?thesis by (auto simp: scan_inv_def)
  qed
qed

lemma select_fold_snoc:
  "foldl (select_step lang) a (zip (xs @ [x]) [0..<length (xs @ [x])]) =
   select_step lang (foldl (select_step lang) a (zip xs [0..<length xs])) (x, length xs)"
  by simp

lemma select_fold_inv:
  "case foldl (select_step lang) (0, 0, 0, 0) (zip cs [0..<length cs]) of
     (m, b, ml, bl) \<Rightarrow>
       scan_inv (\<lambda>c. True) cs m b \<and> scan_inv (\<lambda>c. Some (JStr (language c)) = lang) cs ml bl"
proof (induction cs rule: rev_induct)
  case Nil
  then show ?case by (simp add: scan_inv_def)
next
  case (snoc x xs)
  obtain m b ml bl where f: "foldl (select_step lang) (0, 0, 0, 0) (zip xs [0..<length xs])
      = (m, b, ml, bl)" by (metis prod_cases4)
  with snoc have g: "scan_inv (\<lambda>c. True) xs m b"
    and l: "scan_inv (\<lambda>c. Some (JStr (language c)) = lang) xs ml bl" by simp_all
  from scan_inv_step [OF g, of x] scan_inv_step [OF l, of x]
  show ?case
    unfolding select_fold_snoc f by (auto simp: select_step_def Let_def)
qed

lemma select_best_inv:
  "\<exists>m b ml bl. scan_inv (\<lambda>c. True) cs m b
     \<and> scan_inv (\<lambda>c. Some (JStr (language c)) = lang) cs ml bl
     \<and> select_best lang cs = (if ml > 0 then bl else b)"
proof -
  obtain m b ml bl where f: "foldl (select_step lang) (0, 0, 0, 0) (zip cs [0..<length cs])
      = (m, b, ml, bl)" by (metis prod_cases4)
  with select_fold_inv [where lang = lang and cs = cs] show ?thesis
    by (auto simp: select_best_def)
qed

theorem select_best_policy:
  "((\<exists>c \<in> set cs. Some (JStr (language c)) = lang \<and> 0 < markedCount c) \<longrightarrow>
      is_first_best (\<lambda>c. Some (JStr (language c)) = lang) cs (select_best lang cs))
   \<and> (\<not> (\<exists>c \<in> set cs. Some (JStr (language c)) = lang \<and> 0 < markedCount c) \<longrightarrow>
        ((\<exists>c \<in> set cs. 0 < markedCount c) \<longrightarrow>
            is_first_best (\<lambda>c. True) cs (select_best lang cs))
        \<and> (\<not> (\<exists>c \<in> set cs. 0 < markedCount c) \<longrightarrow> select_best lang cs = 0))"
proof -
  from select_best_inv [where lang = lang and cs = cs] obtain m b ml bl
    where g: "scan_inv (\<lambda>c. True) cs m b"
      and l: "scan_inv (\<lambda>c. Some (JStr (language c)) = lang) cs ml bl"
      and s: "select_best lang cs = (if ml > 0 then bl else b)" by blast
  show ?thesis
  proof (cases "\<exists>c \<in> set cs. Some (JStr (language c)) = lang \<and> 0 < markedCount c")
    case True
    with l have "0 < ml" "is_first_best (\<lambda>c. Some (JStr (language c)) = lang) cs bl"
      by (simp_all add: scan_inv_def)
    with True s show ?thesis by auto
  next
    case False
    with l have ml: "ml = 0" by (simp add: scan_inv_def)
    show ?thesis
    proof (cases "\<exists>c \<in> set cs. 0 < markedCount c")
      case True
      with g have "is_first_best (\<lambda>c. True) cs b" by (simp add: scan_inv_def)
      with True False s ml show ?thesis by auto
    next
      case F2: False
      with g have "b = 0" by (simp add: scan_inv_def)
      with F2 False s ml show ?thesis by auto
    qed
  qed
qed

text \<open>
  The selector compares the language of a card with the \<open>language\<close> field of the
  \<open>word_selected\<close> message, not with \<open>currentLanguage\<close>. After \<open>round_start\<close> has set
  the current language to es, a \<open>word_selected\<close> message with the fields of the interface
  (word and card_ids) on the cards A (es, 2 marked), B (es, 2 marked), C (en, 5 marked)
  selects index 2, the card C.
\<close>

theorem selector_ignores_currentLanguage_counterexample:
  "run [Message (Some (round_start_msg (js_of ''es''))),
        Message (Some (word_selected_msg (js_of ''z'') []))]
       (init_state\<lparr>bingoCards :=
          [sample_card ''A'' ''es'' [''a'', ''b'', ''c''] [''a'', ''b''],
           sample_card ''B'' ''es'' [''a'', ''b'', ''c''] [''b'', ''c''],
           sample_card ''C'' ''en'' [''a'', ''b'', ''c'', ''d'', ''e'']
              [''a'', ''b'', ''c'', ''d'', ''e'']]\<rparr>) =
     Inr (init_state\<lparr>bingoCards :=
          [sample_card ''A'' ''es'' [''a'', ''b'', ''c''] [''a'', ''b''],
           sample_card ''B'' ''es'' [''a'', ''b'', ''c''] [''b'', ''c''],
           sample_card ''C'' ''en'' [''a'', ''b'', ''c'', ''d'', ''e'']
              [''a'', ''b'', ''c'', ''d'', ''e'']],
          currentLanguage := Some (JStr (js_of ''es'')),
          currentWord := Some (JStr (js_of ''z'')),
          selectedCardIndex := 2\<rparr>)"
  by (simp add: onmessage_def handleWebSocketMessage_def word_selected_msg_def
      round_start_msg_def init_state_def select_best_def select_step_def markedCount_def
      mark_card_def sample_card_def js_of_def)

lemma abc_with_language:
  "handleWebSocketMessage (word_selected_lang_msg (js_of ''z'') [] (js_of ''es''))
       (init_state\<lparr>bingoCards :=
          [sample_card ''A'' ''es'' [''a'', ''b'', ''c''] [''a'', ''b''],
           sample_card ''B'' ''es'' [''a'', ''b'', ''c''] [''b'', ''c''],
           sample_card ''C'' ''en'' [''a'', ''b'', ''c'', ''d'', ''e'']
              [''a'', ''b'', ''c'', ''d'', ''e'']]\<rparr>) =
     Returned (init_state\<lparr>bingoCards :=
          [sample_card ''A'' ''es'' [''a'', ''b'', ''c''] [''a'', ''b''],
           sample_card ''B'' ''es'' [''a'', ''b'', ''c''] [''b'', ''c''],
           sample_card ''C'' ''en'' [''a'', ''b'', ''c'', ''d'', ''e'']
              [''a'', ''b'', ''c'', ''d'', ''e'']],
          currentWord := Some (JStr (js_of ''z'')),
          selectedCardIndex := 0\<rparr>)"
  by (simp add: handleWebSocketMessage_def word_selected_lang_msg_def
      init_state_def select_best_def select_step_def markedCount_def
      mark_card_def sample_card_def js_of_def)

text \<open>
  C1, as the code has it. After a \<open>word_selected\<close> message has been handled: if some
  card whose language equals the \<open>language\<close> field of that message has a marked word,
  the selected index is that of the first card with the greatest marked count among
  the cards of that language; otherwise it is that of the first card with the greatest
  marked count of all, and 0 when no card has a marked word. For the cards A (es, 2
  marked), B (es, 2 marked), C (en, 5 marked) and a message with language es the
  selected index is 0, the card A.
\<close>

theorem word_selected_selects_best:
  assumes ty: "js_prop data (js_of ''type'') = Some (JStr (js_of ''word_selected''))"
    and r: "handleWebSocketMessage data st = Returned st1"
  shows "((\<exists>c \<in> set (bingoCards st1).
            Some (JStr (language c)) = js_prop data (js_of ''language'') \<and> 0 < markedCount c) \<longrightarrow>
          is_first_best (\<lambda>c. Some (JStr (language c)) = js_prop data (js_of ''language''))
            (bingoCards st1) (selectedCardIndex st1))
     \<and> (\<not> (\<exists>c \<in> set (bingoCards st1).
            Some (JStr (language c)) = js_prop data (js_of ''language'') \<and> 0 < markedCount c) \<longrightarrow>
          ((\<exists>c \<in> set (bingoCards st1). 0 < markedCount c) \<longrightarrow>
             is_first_best (\<lambda>c. True) (bingoCards st1) (selectedCardIndex st1))
          \<and> (\<not> (\<exists>c \<in> set (bingoCards st1). 0 < markedCount c) \<longrightarrow>
               selectedCardIndex st1 = 0))
     \<and> handleWebSocketMessage (word_selected_lang_msg (js_of ''z'') [] (js_of ''es''))
         (init_state\<lparr>bingoCards :=
            [sample_card ''A'' ''es'' [''a'', ''b'', ''c''] [''a'', ''b''],
             sample_card ''B'' ''es'' [''a'', ''b'', ''c''] [''b'', ''c''],
             sample_card ''C'' ''en'' [''a'', ''b'', ''c'', ''d'', ''e'']
                [''a'', ''b'', ''c'', ''d'', ''e'']]\<rparr>) =
       Returned (init_state\<lparr>bingoCards :=
            [sample_card ''A'' ''es'' [''a'', ''b'', ''c''] [''a'', ''b''],
             sample_card ''B'' ''es'' [''a'', ''b'', ''c''] [''b'', ''c''],
             sample_card ''C'' ''en'' [''a'', ''b'', ''c'', ''d'', ''e'']
                [''a'', ''b'', ''c'', ''d'', ''e'']],
            currentWord := Some (JStr (js_of ''z'')),
            selectedCardIndex := 0\<rparr>)"
proof -
  from r have "selectedCardIndex st1 =
      select_best (js_prop data (js_of ''language'')) (bingoCards st1)"
    by (auto simp: handle_word_selected [OF ty] split: sum.splits)
  with select_best_policy [of "bingoCards st1" "js_prop data (js_of ''language'')"]
    abc_with_language
  show ?thesis by simp
qed

theorem word_selected_selects_best_witness:
  "\<exists>st1. handleWebSocketMessage (word_selected_lang_msg (js_of ''z'') [] (js_of ''es''))
         (init_state\<lparr>bingoCards :=
            [sample_card ''A'' ''es'' [''a'', ''b'', ''c''] [''a'', ''b''],
             sample_card ''B'' ''es'' [''a'', ''b'', ''c''] [''b'', ''c''],
             sample_card ''C'' ''en'' [''a'', ''b'', ''c'', ''d'', ''e'']
                [''a'', ''b'', ''c'', ''d'', ''e'']]\<rparr>) = Returned st1
     \<and> selectedCardIndex st1 = 0
     \<and> is_first_best (\<lambda>c. Some (JStr (language c)) = Some (JStr (js_of ''es'')))
          (bingoCards st1) (selectedCardIndex st1)"
proof -
  let ?d = "word_selected_lang_msg (js_of ''z'') [] (js_of ''es'')"
  let ?cs = "[sample_card ''A'' ''es'' [''a'', ''b'', ''c''] [''a'', ''b''],
             sample_card ''B'' ''es'' [''a'', ''b'', ''c''] [''b'', ''c''],
             sample_card ''C'' ''en'' [''a'', ''b'', ''c'', ''d'', ''e'']
                [''a'', ''b'', ''c'', ''d'', ''e'']]"
  let ?st1 = "init_state\<lparr>bingoCards := ?cs,
            currentWord := Some (JStr (js_of ''z'')), selectedCardIndex := 0\<rparr>"
  have ty: "js_prop ?d (js_of ''type'') = Some (JStr (js_of ''word_selected''))"
    by (simp add: word_selected_lang_msg_def)
  have lang: "js_prop ?d (js_of ''language'') = Some (JStr (js_of ''es''))"
    by (simp add: word_selected_lang_msg_def js_of_def)
  have r: "handleWebSocketMessage ?d (init_state\<lparr>bingoCards := ?cs\<rparr>) = Returned ?st1"
    by (rule abc_with_language)
  have ex: "\<exists>c \<in> set (bingoCards ?st1).
      Some (JStr (language c)) = js_prop ?d (js_of ''language'') \<and> 0 < markedCount c"
    by (simp add: lang sample_card_def markedCount_def)
  from word_selected_selects_best [OF ty r, THEN conjunct1, rule_format, OF ex]
  have "is_first_best (\<lambda>c. Some (JStr (language c)) = Some (JStr (js_of ''es'')))
          (bingoCards ?st1) (selectedCardIndex ?st1)"
    by (simp only: lang)
  with r show ?thesis by (intro exI [of _ ?st1]) simp
qed

section \<open>Properties of the Transmission Queue\<close>

lemma findIndex_Some:
  "findIndex p xs = Some j \<Longrightarrow> j < length xs \<and> p (xs ! j) \<and> (\<forall>k < j. \<not> p (xs ! k))"
proof (induction xs arbitrary: j)
  case Nil
  then show ?case by simp
next
  case (Cons x xs)
  show ?case
  proof (cases "p x")
    case True
    with Cons.prems show ?thesis by simp
  next
    case False
    with Cons.prems obtain j' where j: "findIndex p xs = Some j'" "j = Suc j'" by auto
    from Cons.IH [OF j(1)] False j(2) show ?thesis by (auto simp: less_Suc_eq_0_disj)
  qed
qed

lemma map_zip_index:
  "j < length xs \<Longrightarrow>
   map (\<lambda>(c, idx). if idx = j then f c else c) (zip xs [0..<length xs]) = xs[j := f (xs ! j)]"
  by (rule nth_equalityI) (auto simp: nth_list_update)

lemma transmitNextCard_None:
  "findIndex (\<lambda>c. \<not> transmitted c) (bingoCards st) = None \<Longrightarrow>
   transmitNextCard st = st\<lparr>isTransmitting := False\<rparr>"
  by (simp add: transmitNextCard_def)

lemma transmitNextCard_Some:
  assumes "findIndex (\<lambda>c. \<not> transmitted c) (bingoCards st) = Some j"
  shows "transmitNextCard st =
     st\<lparr>sendCalls := sendCalls st @ [j],
        outbox := (if socketRef st = Some OPEN
                   then outbox st @ [BingoCardMsg (card_id (bingoCards st ! j))
                          (words (bingoCards st ! j)) (language (bingoCards st ! j))]
                   else outbox st),
        bingoCards := (bingoCards st)[j := (bingoCards st ! j)\<lparr>transmitted := True\<rparr>],
        timers := timers st @ [(bingoCards st)[j := (bingoCards st ! j)\<lparr>transmitted := True\<rparr>]]\<rparr>"
proof -
  from findIndex_Some [OF assms] have "j < length (bingoCards st)" by simp
  then show ?thesis
    using assms by (simp add: transmitNextCard_def sendBingoCard_def Let_def map_zip_index)
qed

text \<open>
  What one step of the queue does when the socket is missing or not open: nothing is
  given to the socket, nothing is logged, and the card it took is marked transmitted.
\<close>

lemma transmitNextCard_not_open:
  assumes closed: "socketRef st \<noteq> Some OPEN"
    and idx: "findIndex (\<lambda>c. \<not> transmitted c) (bingoCards st) = Some i"
  shows "outbox (transmitNextCard st) = outbox st
     \<and> console (transmitNextCard st) = console st
     \<and> sendCalls (transmitNextCard st) = sendCalls st @ [i]
     \<and> i < length (bingoCards (transmitNextCard st))
     \<and> transmitted (bingoCards (transmitNextCard st) ! i)"
proof -
  from findIndex_Some [OF idx] have "i < length (bingoCards st)" by simp
  with closed show ?thesis by (simp add: transmitNextCard_Some [OF idx])
qed

lemma parse_three: "parseTxtFile (js_of ''C1 a\<newline>C2 b\<newline>C3 c'') =
     [sample_card ''C1'' ''spanish'' [''a''] [],
      sample_card ''C2'' ''spanish'' [''b''] [],
      sample_card ''C3'' ''spanish'' [''c''] []]"
  by (simp add: parseTxtFile_eq split_nl_def tokens_def card_of_tokens_def js_of_def
        is_ws_def detectLanguage_def LANGUAGE_CONFIGS_def sample_card_def)

lemma parse_one: "parseTxtFile (js_of ''C4 d'') = [sample_card ''C4'' ''spanish'' [''d''] []]"
  by (simp add: parseTxtFile_eq split_nl_def tokens_def card_of_tokens_def js_of_def
        is_ws_def detectLanguage_def LANGUAGE_CONFIGS_def sample_card_def)

lemma parse_two: "parseTxtFile (js_of ''C1 a b\<newline>C2 x y'') =
     [sample_card ''C1'' ''spanish'' [''a'', ''b''] [],
      sample_card ''C2'' ''spanish'' [''x'', ''y''] []]"
  by (simp add: parseTxtFile_eq split_nl_def tokens_def card_of_tokens_def js_of_def
        is_ws_def detectLanguage_def LANGUAGE_CONFIGS_def sample_card_def)

lemma sample_card_sel [simp]:
  "transmitted (sample_card i l ws m) = False"
  "card_id (sample_card i l ws m) = js_of i"
  "words (sample_card i l ws m) = map js_of ws"
  "language (sample_card i l ws m) = js_of l"
  by (simp_all add: sample_card_def)

text \<open>
  C7 fails on the code in its last part. The socket is still connecting. A file with
  the cards C1, C2, C3 is read and the queue takes C1. A second file, with the card C4,
  is chosen: its reader closes over the store in which C2 is not transmitted. The
  timeout takes C2: nothing reaches the socket and C2 is marked transmitted. Then the
  second reader finishes and puts the array it closed over back in the store, with C2
  not transmitted. The socket opens, and the next timeout takes C2 a second time and
  sends it.
\<close>

theorem stale_onload_resends_dropped_card:
  "run [SocketChange (Some CONNECTING),
        FileChosen (Some (js_of ''C1 a\<newline>C2 b\<newline>C3 c'')),
        ReaderLoaded 0,
        FileChosen (Some (js_of ''C4 d'')),
        DrainTimer] init_state =
     Inr (init_state\<lparr>
       socketRef := Some CONNECTING,
       isTransmitting := True,
       bingoCards :=
         [(sample_card ''C1'' ''spanish'' [''a''] [])\<lparr>transmitted := True\<rparr>,
          (sample_card ''C2'' ''spanish'' [''b''] [])\<lparr>transmitted := True\<rparr>,
          sample_card ''C3'' ''spanish'' [''c''] []],
       outbox := [],
       sendCalls := [0, 1],
       timers :=
         [[(sample_card ''C1'' ''spanish'' [''a''] [])\<lparr>transmitted := True\<rparr>,
           (sample_card ''C2'' ''spanish'' [''b''] [])\<lparr>transmitted := True\<rparr>,
           sample_card ''C3'' ''spanish'' [''c''] []]],
       readers :=
         [([(sample_card ''C1'' ''spanish'' [''a''] [])\<lparr>transmitted := True\<rparr>,
            sample_card ''C2'' ''spanish'' [''b''] [],
            sample_card ''C3'' ''spanish'' [''c''] []],
           js_of ''C4 d'')]\<rparr>)
   \<and> run [SocketChange (Some CONNECTING),
        FileChosen (Some (js_of ''C1 a\<newline>C2 b\<newline>C3 c'')),
        ReaderLoaded 0,
        FileChosen (Some (js_of ''C4 d'')),
        DrainTimer,
        ReaderLoaded 0,
        SocketChange (Some OPEN),
        DrainTimer] init_state =
     Inr (init_state\<lparr>
       socketRef := Some OPEN,
       isTransmitting := True,
       bingoCards :=
         [(sample_card ''C1'' ''spanish'' [''a''] [])\<lparr>transmitted := True\<rparr>,
          (sample_card ''C2'' ''spanish'' [''b''] [])\<lparr>transmitted := True\<rparr>,
          sample_card ''C3'' ''spanish'' [''c''] [],
          sample_card ''C4'' ''spanish'' [''d''] []],
       outbox := [BingoCardMsg (js_of ''C2'') [js_of ''b''] (js_of ''spanish'')],
       sendCalls := [0, 1, 1],
       timers :=
         [[(sample_card ''C1'' ''spanish'' [''a''] [])\<lparr>transmitted := True\<rparr>,
           (sample_card ''C2'' ''spanish'' [''b''] [])\<lparr>transmitted := True\<rparr>,
           sample_card ''C3'' ''spanish'' [''c''] [],
           sample_card ''C4'' ''spanish'' [''d''] []]],
       readers := []\<rparr>)"
  by (simp add: handleFileUpload_def readerLoaded_def reader_onload_def setBingoCards_def
      parse_three parse_one cardsEffect_def transmitNextCard_def sendBingoCard_def
      drainTimeout_def init_state_def Let_def upt_rec)

text \<open>
  C2 fails on the code. With the socket open, a file with the cards C1 and C2 is read
  and the queue sends C1; the first timeout sends C2 and arms a timeout whose callback
  holds the array in which every card is transmitted. A manual entry of C3 arrives
  before that timeout: the effect sees \<open>isTransmitting\<close> set and starts nothing. The
  timeout then finds no untransmitted card in its own array and clears
  \<open>isTransmitting\<close>. No timeout is left, C3 is in the store untransmitted, and the socket
  has received C1 and C2 only.
\<close>

theorem drain_strands_late_card:
  "run [SocketChange (Some OPEN),
        FileChosen (Some (js_of ''C1 a b\<newline>C2 x y'')),
        ReaderLoaded 0,
        DrainTimer,
        ManualSubmit (js_of ''C3'') (js_of ''p\<newline>q''),
        DrainTimer] init_state =
     Inr (init_state\<lparr>
       socketRef := Some OPEN,
       bingoCards :=
         [\<lparr>card_id = js_of ''C1'', words = [js_of ''a'', js_of ''b''],
           language = js_of ''spanish'', transmitted = True, markedWords = Some []\<rparr>,
          \<lparr>card_id = js_of ''C2'', words = [js_of ''x'', js_of ''y''],
           language = js_of ''spanish'', transmitted = True, markedWords = Some []\<rparr>,
          \<lparr>card_id = js_of ''C3'', words = [js_of ''p'', js_of ''q''],
           language = js_of ''spanish'', transmitted = False, markedWords = Some []\<rparr>],
       outbox :=
         [BingoCardMsg (js_of ''C1'') [js_of ''a'', js_of ''b''] (js_of ''spanish''),
          BingoCardMsg (js_of ''C2'') [js_of ''x'', js_of ''y''] (js_of ''spanish'')],
       sendCalls := [0, 1],
       timers := [],
       isTransmitting := False\<rparr>)
   \<and> drainTimeout (init_state\<lparr>
       socketRef := Some OPEN,
       bingoCards :=
         [\<lparr>card_id = js_of ''C1'', words = [js_of ''a'', js_of ''b''],
           language = js_of ''spanish'', transmitted = True, markedWords = Some []\<rparr>,
          \<lparr>card_id = js_of ''C2'', words = [js_of ''x'', js_of ''y''],
           language = js_of ''spanish'', transmitted = True, markedWords = Some []\<rparr>,
          \<lparr>card_id = js_of ''C3'', words = [js_of ''p'', js_of ''q''],
           language = js_of ''spanish'', transmitted = False, markedWords = Some []\<rparr>],
       outbox :=
         [BingoCardMsg (js_of ''C1'') [js_of ''a'', js_of ''b''] (js_of ''spanish''),
          BingoCardMsg (js_of ''C2'') [js_of ''x'', js_of ''y''] (js_of ''spanish'')],
       sendCalls := [0, 1],
       timers := [],
       isTransmitting := False\<rparr>) =
     init_state\<lparr>
       socketRef := Some OPEN,
       bingoCards :=
         [\<lparr>card_id = js_of ''C1'', words = [js_of ''a'', js_of ''b''],
           language = js_of ''spanish'', transmitted = True, markedWords = Some []\<rparr>,
          \<lparr>card_id = js_of ''C2'', words = [js_of ''x'', js_of ''y''],
           language = js_of ''spanish'', transmitted = True, markedWords = Some []\<rparr>,
          \<lparr>card_id = js_of ''C3'', words = [js_of ''p'', js_of ''q''],
           language = js_of ''spanish'', transmitted = False, markedWords = Some []\<rparr>],
       outbox :=
         [BingoCardMsg (js_of ''C1'') [js_of ''a'', js_of ''b''] (js_of ''spanish''),
          BingoCardMsg (js_of ''C2'') [js_of ''x'', js_of ''y''] (js_of ''spanish'')],
       sendCalls := [0, 1],
       timers := [],
       isTransmitting := False\<rparr>"
proof -
  have m: "trim (js_of ''C3'') = js_of ''C3''" "trim (js_of ''p\<newline>q'') = js_of ''p\<newline>q''"
    "split_nl (js_of ''p\<newline>q'') = [js_of ''p'', js_of ''q'']"
    "trim (js_of ''p'') = js_of ''p''" "trim (js_of ''q'') = js_of ''q''"
    by (simp_all add: trim_def split_nl_def js_of_def is_ws_def)
  have d: "detectLanguage (Suc (Suc 0)) = js_of ''spanish''"
    by (simp add: detectLanguage_def LANGUAGE_CONFIGS_def)
  have ne: "js_of ''C3'' \<noteq> []" "js_of ''p\<newline>q'' \<noteq> []" "js_of ''p'' \<noteq> []" "js_of ''q'' \<noteq> []"
    by (simp_all add: js_of_def)
  show ?thesis
    by (simp add: handleFileUpload_def readerLoaded_def reader_onload_def
        handleManualSubmit_def parse_two m d ne setBingoCards_def sample_card_def
        cardsEffect_def transmitNextCard_def sendBingoCard_def drainTimeout_def
        init_state_def Let_def upt_rec)
qed

end
